theory Spec2Isabelle
  imports Main
begin

section \<open>Outcomes of awaited calls\<close>

text \<open>
  Every method of the adapter is an \<^verbatim>\<open>async\<close> function. What a caller observes of one
  call is how its promise settles: rejected with a thrown value, or resolved with a
  result. A settled promise is a value of \<open>fault + 'a\<close>, \<open>Inl\<close> the rejection. A
  \<^verbatim>\<open>throw\<close> inside an \<^verbatim>\<open>async\<close> body rejects the promise, so the faults of the
  synchronous helpers (\<^verbatim>\<open>parseUnits\<close>, \<^verbatim>\<open>formatUnits\<close>) are values of the same type.
  Output to the console is not part of the adapter's model.
\<close>

datatype fault =
    InvalidArgument string
  | NumericFault string
  | CallException string
  | NetworkError string
  | OtherError string

type_synonym 'a settled = "fault + 'a"

section \<open>Decimal strings and fixed-point integers\<close>

text \<open>
  \<^verbatim>\<open>parseUnits\<close> and \<^verbatim>\<open>formatUnits\<close> are imported from the \<^verbatim>\<open>ethers\<close> package
  (line 1 of the adapter), version 6: \<^verbatim>\<open>BrowserProvider\<close> and the top-level exports
  of both functions exist from that version on. The package is a dependency, not a file
  of the repository. The definitions of this section follow the package's
  \<^verbatim>\<open>FixedNumber.fromString\<close> (behind \<^verbatim>\<open>parseUnits\<close>) and \<^verbatim>\<open>FixedNumber.fromValue\<close>
  with \<^verbatim>\<open>toString\<close> (behind \<^verbatim>\<open>formatUnits\<close>), both with the format
  \<^verbatim>\<open>{ decimals, width: 512 }\<close>, signed by default. A JavaScript \<^verbatim>\<open>bigint\<close> is an
  \<open>int\<close>; strings are lists of characters.
\<close>

definition is_digit :: "char \<Rightarrow> bool" where
  "is_digit c = (48 \<le> (of_char c :: nat) \<and> (of_char c :: nat) \<le> 57)"

definition digit_val :: "char \<Rightarrow> nat" where
  "digit_val c = of_char c - 48"

definition digit_char :: "nat \<Rightarrow> char" where
  "digit_char d = char_of (48 + d)"

text \<open>\<^verbatim>\<open>BigInt(s)\<close> on a string of decimal digits, and \<^verbatim>\<open>val.toString()\<close> on a
  \<^verbatim>\<open>bigint\<close> that is not negative.\<close>

definition nat_of_digits :: "string \<Rightarrow> nat" where
  "nat_of_digits s = foldl (\<lambda>a c. 10 * a + digit_val c) 0 s"

fun bigint_toString :: "nat \<Rightarrow> string" where
  "bigint_toString n =
     (if n < 10 then [digit_char n]
      else bigint_toString (n div 10) @ [digit_char (n mod 10)])"

declare bigint_toString.simps [simp del]

text \<open>The package's constant \<^verbatim>\<open>Zeros\<close>: \<^verbatim>\<open>"0000"\<close> doubled until it has at least 80
  characters, so 128 zeros. Both padding loops add it whole.\<close>

definition Zeros :: string where
  "Zeros = replicate 128 (CHR ''0'')"

text \<open>
  The regular expression \<^verbatim>\<open>/^(-?)([0-9]*)\.?([0-9]*)$/\<close> of \<^verbatim>\<open>fromString\<close>: the
  groups are the sign, the whole digits and the fractional digits. The two starred
  groups are greedy and nothing after them can give a digit back, so each is the
  longest run of digits. \<open>None\<close> is \<^verbatim>\<open>match === null\<close>.
\<close>

definition match_decimal :: "string \<Rightarrow> (string \<times> string \<times> string) option" where
  "match_decimal s =
     (let (neg, r1) = (case s of c # r \<Rightarrow> if c = CHR ''-'' then (''-'', r) else ('''', s)
                              | [] \<Rightarrow> ('''', []));
          whole = takeWhile is_digit r1;
          r2 = dropWhile is_digit r1;
          r3 = (case r2 of c # r \<Rightarrow> if c = CHR ''.'' then r else r2 | [] \<Rightarrow> []);
          frac = takeWhile is_digit r3;
          r4 = dropWhile is_digit r3
      in if r4 = [] then Some (neg, whole, frac) else None)"

text \<open>\<^verbatim>\<open>while (decimal.length < format.decimals) { decimal += Zeros; }\<close>\<close>

function pad_decimal :: "string \<Rightarrow> nat \<Rightarrow> string" where
  "pad_decimal decimal decimals =
     (if length decimal < decimals then pad_decimal (decimal @ Zeros) decimals
      else decimal)"
  by pat_completeness auto
termination
  by (relation "measure (\<lambda>(decimal, decimals). decimals - length decimal)")
     (auto simp: Zeros_def)

declare pad_decimal.simps [simp del]

text \<open>\<^verbatim>\<open>checkValue\<close> for a signed format of width 512: the value must lie in
  \<open>[-2^511, 2^511)\<close>.\<close>

definition fits_width :: "int \<Rightarrow> bool" where
  "fits_width v = (- (2 ^ 511) \<le> v \<and> v < 2 ^ 511)"

definition BigInt :: "string \<Rightarrow> string \<Rightarrow> int" where
  "BigInt neg ds = (if neg = ''-'' then - int (nat_of_digits ds) else int (nat_of_digits ds))"

definition parseUnits :: "string \<Rightarrow> nat \<Rightarrow> int settled" where
  "parseUnits val decimals =
     (case match_decimal val of
        None \<Rightarrow> Inl (InvalidArgument ''invalid FixedNumber string value'')
      | Some (neg, m2, m3) \<Rightarrow>
          if length m2 + length m3 = 0
          then Inl (InvalidArgument ''invalid FixedNumber string value'')
          else
            let whole = (if m2 = [] then ''0'' else m2);
                decimal = pad_decimal m3 decimals
            in if \<not> list_all (\<lambda>c. c = CHR ''0'') (drop decimals decimal)
               then Inl (NumericFault ''too many decimals for format'')
               else
                 let v = BigInt neg (whole @ take decimals decimal)
                 in if fits_width v then Inr v else Inl (NumericFault ''overflow''))"

text \<open>
  \<^verbatim>\<open>toString(val, decimals)\<close>: the digits of the magnitude, returned as they are when
  \<^verbatim>\<open>decimals === 0\<close>; otherwise padded on the left until longer than \<^verbatim>\<open>decimals\<close>, the
  point inserted, and zeros trimmed at both ends, one left on each side of the point.
\<close>

function pad_whole :: "string \<Rightarrow> nat \<Rightarrow> string" where
  "pad_whole str decimals =
     (if length str \<le> decimals then pad_whole (Zeros @ str) decimals else str)"
  by pat_completeness auto
termination
  by (relation "measure (\<lambda>(str, decimals). Suc decimals - length str)")
     (auto simp: Zeros_def)

declare pad_whole.simps [simp del]

text \<open>\<^verbatim>\<open>while (str[0] === "0" && str[1] !== ".") { str = str.substring(1); }\<close>
  Indexing past the end gives \<^verbatim>\<open>undefined\<close>, which is not \<^verbatim>\<open>"."\<close>.\<close>

fun trim_leading :: "string \<Rightarrow> string" where
  "trim_leading [] = []"
| "trim_leading [c] = (if c = CHR ''0'' then [] else [c])"
| "trim_leading (c0 # c1 # r) =
     (if c0 = CHR ''0'' \<and> c1 \<noteq> CHR ''.'' then trim_leading (c1 # r) else c0 # c1 # r)"

text \<open>\<^verbatim>\<open>while (str[str.length - 1] === "0" && str[str.length - 2] !== ".")\<close>: the same
  loop from the other end.\<close>

definition trim_trailing :: "string \<Rightarrow> string" where
  "trim_trailing str = rev (trim_leading (rev str))"

definition toString :: "int \<Rightarrow> nat \<Rightarrow> string" where
  "toString val decimals =
     (let negative = (if val < 0 then ''-'' else '''');
          str = bigint_toString (nat \<bar>val\<bar>)
      in if decimals = 0 then negative @ str
         else
           let str1 = pad_whole str decimals;
               index = length str1 - decimals;
               str2 = take index str1 @ ''.'' @ drop index str1
           in negative @ trim_trailing (trim_leading str2))"

definition formatUnits :: "int \<Rightarrow> nat \<Rightarrow> string settled" where
  "formatUnits val decimals =
     (if fits_width val then Inr (toString val decimals) else Inl (NumericFault ''overflow''))"

section \<open>JavaScript numbers that hold integers\<close>

text \<open>
  A JavaScript \<^verbatim>\<open>number\<close> is an IEEE 754 double. The adapter only ever builds numbers
  from integers (\<^verbatim>\<open>Number(bigint)\<close>, \<^verbatim>\<open>Number\<close> of a string of digits, a product by
  \<^verbatim>\<open>1000\<close>), so a number is modelled by the integer it holds, or an infinity, or
  \<^verbatim>\<open>NaN\<close>. An integer with more than 53 significant bits is rounded to the nearest
  double, ties to the even significand; from \<open>2^1024\<close> on the result is infinite.
\<close>

datatype number = Num int | PosInfinity | NegInfinity | NaN

fun bit_length :: "nat \<Rightarrow> nat" where
  "bit_length n = (if n = 0 then 0 else Suc (bit_length (n div 2)))"

declare bit_length.simps [simp del]

definition round_double :: "int \<Rightarrow> number" where
  "round_double n =
     (let m = nat \<bar>n\<bar>;
          e = bit_length m - 53;
          q = m div 2 ^ e;
          r = m mod 2 ^ e;
          q' = (if 2 ^ e < 2 * r \<or> (2 * r = 2 ^ e \<and> odd q) then q + 1 else q);
          a = q' * 2 ^ e
      in if 2 ^ 1024 \<le> a then (if n < 0 then NegInfinity else PosInfinity)
         else Num (if n < 0 then - int a else int a))"

text \<open>\<^verbatim>\<open>Number(x)\<close> for a \<^verbatim>\<open>bigint\<close> \<open>x\<close>.\<close>

definition Number_of_bigint :: "int \<Rightarrow> number" where
  "Number_of_bigint x = round_double x"

text \<open>\<^verbatim>\<open>Number(s)\<close> for a string \<open>s\<close>. Only the strings that \<^verbatim>\<open>formatUnits(x, 0)\<close>
  returns reach it: an optional minus sign and decimal digits. The model gives
  \<^verbatim>\<open>NaN\<close> for every other string; the rest of JavaScript's numeric grammar
  (white space, exponents, a fraction, other radixes) is not modelled.\<close>

definition Number_of_string :: "string \<Rightarrow> number" where
  "Number_of_string s =
     (case s of
        [] \<Rightarrow> NaN
      | c # r \<Rightarrow>
          if c = CHR ''-'' then
            (if r \<noteq> [] \<and> list_all is_digit r then round_double (- int (nat_of_digits r)) else NaN)
          else if list_all is_digit s then round_double (int (nat_of_digits s))
          else NaN)"

text \<open>The product \<^verbatim>\<open>x * y\<close> of two numbers: the exact product of the integers,
  rounded once. The sign of a zero is not modelled.\<close>

fun times :: "number \<Rightarrow> number \<Rightarrow> number" where
  "times (Num a) (Num b) = round_double (a * b)"
| "times NaN _ = NaN"
| "times _ NaN = NaN"
| "times PosInfinity (Num b) = (if b = 0 then NaN else if 0 < b then PosInfinity else NegInfinity)"
| "times NegInfinity (Num b) = (if b = 0 then NaN else if 0 < b then NegInfinity else PosInfinity)"
| "times (Num a) PosInfinity = (if a = 0 then NaN else if 0 < a then PosInfinity else NegInfinity)"
| "times (Num a) NegInfinity = (if a = 0 then NaN else if 0 < a then NegInfinity else PosInfinity)"
| "times PosInfinity PosInfinity = PosInfinity"
| "times PosInfinity NegInfinity = NegInfinity"
| "times NegInfinity PosInfinity = NegInfinity"
| "times NegInfinity NegInfinity = PosInfinity"

section \<open>The deployed contract, as the adapter reaches it\<close>

text \<open>
  The contract is an external collaborator. A handle is what its methods answer: each
  field gives, for the arguments of one call, how the promise of that call settles. A
  state-changing method settles with a transaction response, whose \<^verbatim>\<open>wait()\<close> settles
  with a receipt once the transaction is included, or rejects when it reverted.
\<close>

datatype receipt = Receipt nat

record transaction =
  wait :: "receipt settled"

record liquidity =
  liq_amount :: int
  liq_withdrawalTime :: int
  liq_addedAt :: int

record contract =
  c_getAssetValueInUSD :: "string \<Rightarrow> int \<Rightarrow> int settled"
  c_collateralDeposited :: "string \<Rightarrow> string \<Rightarrow> int settled"
  c_depositCollateral :: "string \<Rightarrow> int \<Rightarrow> transaction settled"
  c_borrowAsset :: "string \<Rightarrow> int \<Rightarrow> number \<Rightarrow> transaction settled"
  c_withdrawCollateralDeposited :: "string \<Rightarrow> transaction settled"
  c_repayLoan :: "string \<Rightarrow> int \<Rightarrow> transaction settled"
  c_liquidatePosition :: "string \<Rightarrow> string \<Rightarrow> string \<Rightarrow> int \<Rightarrow> transaction settled"
  c_userTotalBorrowedAssetInUsd :: "string \<Rightarrow> int settled"
  c_userTotalCollateralAssetInUsd :: "string \<Rightarrow> int settled"
  c_allowedBorrowingAmount :: "string \<Rightarrow> int settled"
  c_checkForBrokenHealthFactor :: "string \<Rightarrow> unit settled"
  c_userHealthFactor :: "string \<Rightarrow> int settled"
  c_addLiquidity :: "string \<Rightarrow> int \<Rightarrow> number \<Rightarrow> transaction settled"
  c_withdrawFromLiquidityPool :: "string \<Rightarrow> transaction settled"
  c_totalLiquidity :: "string \<Rightarrow> int settled"
  c_calculateBasicLPRewards :: "string \<Rightarrow> int settled"
  c_liquidityPool :: "string \<Rightarrow> string \<Rightarrow> liquidity settled"
  c_rebalancePortfolio :: "string \<Rightarrow> string \<Rightarrow> int \<Rightarrow> transaction settled"
  c_treasury :: "string \<Rightarrow> int settled"
  c_tvl :: "string \<Rightarrow> int settled"
  c_priceFeeds :: "string \<Rightarrow> string settled"
  c_transferOwnership :: "string \<Rightarrow> transaction settled"
  c_acceptOwnership :: "transaction settled"

text \<open>
  The second connection, \<^verbatim>\<open>contractJsonRPC\<close>, is used for the event log only:
  \<^verbatim>\<open>filters[eventName](account)\<close> builds a filter (and throws for a name the interface
  does not know), \<^verbatim>\<open>queryFilter\<close> retrieves the batch, and \<^verbatim>\<open>interface.parseLog\<close>
  decodes one entry: it returns the decoded arguments, or \<^verbatim>\<open>null\<close>, or throws. The
  arguments of every event kind are \<^verbatim>\<open>{user, token, amount, timeStamp}\<close>.
\<close>

record log_args =
  args_user :: string
  args_token :: string
  args_amount :: int
  args_timeStamp :: int

datatype blockTag = BlockNumber number | BlockName string

record ('f, 'l) contractJsonRPC =
  filters :: "string \<Rightarrow> string \<Rightarrow> 'f settled"
  queryFilter :: "'f \<Rightarrow> number \<Rightarrow> blockTag \<Rightarrow> 'l list settled"
  parseLog :: "'l \<Rightarrow> log_args option settled"

section \<open>The adapter \<^verbatim>\<open>EthersLendingBorrowingContract\<close>\<close>

text \<open>\<^verbatim>\<open>const v = await p; ...\<close>: a rejection of \<open>p\<close> rejects the method.\<close>

definition await :: "'a settled \<Rightarrow> ('a \<Rightarrow> 'b settled) \<Rightarrow> 'b settled" where
  "await p k = (case p of Inl e \<Rightarrow> Inl e | Inr v \<Rightarrow> k v)"

definition getAssetValueInUSD :: "contract \<Rightarrow> string \<Rightarrow> string \<Rightarrow> string settled" where
  "getAssetValueInUSD c token amount =
     await (parseUnits amount 18) (\<lambda>a.
     await (c_getAssetValueInUSD c token a) (\<lambda>valueInUSD. formatUnits valueInUSD 18))"

definition collateralDeposited :: "contract \<Rightarrow> string \<Rightarrow> string \<Rightarrow> string settled" where
  "collateralDeposited c user token =
     await (c_collateralDeposited c user token) (\<lambda>amount. formatUnits amount 18)"

definition depositCollateral :: "contract \<Rightarrow> string \<Rightarrow> string \<Rightarrow> unit settled" where
  "depositCollateral c token amount =
     await (parseUnits amount 18) (\<lambda>a.
     await (c_depositCollateral c token a) (\<lambda>tx.
     await (wait tx) (\<lambda>_. Inr ())))"

definition borrowAsset :: "contract \<Rightarrow> string \<Rightarrow> string \<Rightarrow> number \<Rightarrow> unit settled" where
  "borrowAsset c token amount repaymentTimestamp =
     await (parseUnits amount 18) (\<lambda>a.
     await (c_borrowAsset c token a repaymentTimestamp) (\<lambda>tx.
     await (wait tx) (\<lambda>_. Inr ())))"

definition withdrawCollateralDeposited :: "contract \<Rightarrow> string \<Rightarrow> unit settled" where
  "withdrawCollateralDeposited c token =
     await (c_withdrawCollateralDeposited c token) (\<lambda>tx.
     await (wait tx) (\<lambda>_. Inr ()))"

definition repayLoan :: "contract \<Rightarrow> string \<Rightarrow> string \<Rightarrow> unit settled" where
  "repayLoan c token amount =
     await (parseUnits amount 18) (\<lambda>a.
     await (c_repayLoan c token a) (\<lambda>tx.
     await (wait tx) (\<lambda>_. Inr ())))"

definition liquidatePosition ::
  "contract \<Rightarrow> string \<Rightarrow> string \<Rightarrow> string \<Rightarrow> string \<Rightarrow> unit settled" where
  "liquidatePosition c userToLiquidate borrowedAsset collateralAsset amount =
     await (parseUnits amount 18) (\<lambda>a.
     await (c_liquidatePosition c userToLiquidate borrowedAsset collateralAsset a) (\<lambda>tx.
     await (wait tx) (\<lambda>_. Inr ())))"

definition getUserTotalBorrowed :: "contract \<Rightarrow> string \<Rightarrow> string settled" where
  "getUserTotalBorrowed c user =
     await (c_userTotalBorrowedAssetInUsd c user) (\<lambda>amount. formatUnits amount 18)"

definition getUserTotalCollateral :: "contract \<Rightarrow> string \<Rightarrow> string settled" where
  "getUserTotalCollateral c user =
     await (c_userTotalCollateralAssetInUsd c user) (\<lambda>amount. formatUnits amount 18)"

definition allowedBorrowingAmount :: "contract \<Rightarrow> string \<Rightarrow> string settled" where
  "allowedBorrowingAmount c user =
     await (c_allowedBorrowingAmount c user) (\<lambda>amount. formatUnits amount 18)"

text \<open>\<^verbatim>\<open>try { await ...; return true; } catch { return false; }\<close>\<close>

definition checkForBrokenHealthFactor :: "contract \<Rightarrow> string \<Rightarrow> bool settled" where
  "checkForBrokenHealthFactor c user =
     (case c_checkForBrokenHealthFactor c user of
        Inr _ \<Rightarrow> Inr True
      | Inl _ \<Rightarrow> Inr False)"

text \<open>The \<^verbatim>\<open>try\<close> block holds the read and the rescaling; the \<^verbatim>\<open>catch\<close> returns
  \<^verbatim>\<open>"0"\<close> for whatever either throws.\<close>

definition userHealthFactor :: "contract \<Rightarrow> string \<Rightarrow> string settled" where
  "userHealthFactor c user =
     (case await (c_userHealthFactor c user) (\<lambda>healthFactor. formatUnits healthFactor 18) of
        Inr s \<Rightarrow> Inr s
      | Inl _ \<Rightarrow> Inr ''0'')"

definition addLiquidity :: "contract \<Rightarrow> string \<Rightarrow> string \<Rightarrow> number \<Rightarrow> unit settled" where
  "addLiquidity c token amount withdrawalTime =
     await (parseUnits amount 18) (\<lambda>a.
     await (c_addLiquidity c token a withdrawalTime) (\<lambda>tx.
     await (wait tx) (\<lambda>_. Inr ())))"

definition withdrawFromLiquidityPool :: "contract \<Rightarrow> string \<Rightarrow> unit settled" where
  "withdrawFromLiquidityPool c token =
     await (c_withdrawFromLiquidityPool c token) (\<lambda>tx.
     await (wait tx) (\<lambda>_. Inr ()))"

definition totalLiquidity :: "contract \<Rightarrow> string \<Rightarrow> string settled" where
  "totalLiquidity c token =
     await (c_totalLiquidity c token) (\<lambda>amount. formatUnits amount 18)"

definition calculateBasicLPRewards :: "contract \<Rightarrow> string \<Rightarrow> string settled" where
  "calculateBasicLPRewards c token =
     await (c_calculateBasicLPRewards c token) (\<lambda>rewards. formatUnits rewards 18)"

text \<open>The object \<^verbatim>\<open>{ amount, withdrawalTime, addedAt }\<close> the method returns; the
  fields carry the prefix \<open>pool_\<close>. The object literal evaluates its three
  properties in order; the first \<^verbatim>\<open>formatUnits\<close> that throws rejects the method.\<close>

record liquidityPool =
  pool_amount :: string
  pool_withdrawalTime :: number
  pool_addedAt :: number

definition getLiquidityPool :: "contract \<Rightarrow> string \<Rightarrow> string \<Rightarrow> liquidityPool settled" where
  "getLiquidityPool c user token =
     await (c_liquidityPool c user token) (\<lambda>liquidity.
     await (formatUnits (liq_amount liquidity) 18) (\<lambda>a.
     await (formatUnits (liq_withdrawalTime liquidity) 0) (\<lambda>w.
     await (formatUnits (liq_addedAt liquidity) 0) (\<lambda>t.
       Inr \<lparr>pool_amount = a, pool_withdrawalTime = Number_of_string w,
            pool_addedAt = Number_of_string t\<rparr>))))"

definition rebalancePortfolio :: "contract \<Rightarrow> string \<Rightarrow> string \<Rightarrow> string \<Rightarrow> unit settled" where
  "rebalancePortfolio c swapFrom swapTo amount =
     await (parseUnits amount 18) (\<lambda>a.
     await (c_rebalancePortfolio c swapFrom swapTo a) (\<lambda>tx.
     await (wait tx) (\<lambda>_. Inr ())))"

definition treasury :: "contract \<Rightarrow> string \<Rightarrow> string settled" where
  "treasury c token = await (c_treasury c token) (\<lambda>amount. formatUnits amount 18)"

definition getTotalValueLocked :: "contract \<Rightarrow> string \<Rightarrow> string settled" where
  "getTotalValueLocked c token = await (c_tvl c token) (\<lambda>v. formatUnits v 18)"

definition priceFeeds :: "contract \<Rightarrow> string \<Rightarrow> string settled" where
  "priceFeeds c token = c_priceFeeds c token"

definition transferOwnership :: "contract \<Rightarrow> string \<Rightarrow> unit settled" where
  "transferOwnership c newOwner =
     await (c_transferOwnership c newOwner) (\<lambda>tx.
     await (wait tx) (\<lambda>_. Inr ()))"

definition acceptOwnership :: "contract \<Rightarrow> unit settled" where
  "acceptOwnership c =
     await (c_acceptOwnership c) (\<lambda>tx.
     await (wait tx) (\<lambda>_. Inr ()))"

text \<open>\<^verbatim>\<open>getLastBlock\<close> returns the promise of the provider's \<^verbatim>\<open>getBlockNumber()\<close>.\<close>

record providerRPC =
  getBlockNumber :: "number settled"

definition getLastBlock :: "providerRPC \<Rightarrow> number settled" where
  "getLastBlock p = getBlockNumber p"

subsection \<open>The event log\<close>

text \<open>The record \<^verbatim>\<open>Events\<close> of \<^verbatim>\<open>{ user, token, amount, timeStamp, eventName }\<close>;
  the fields carry the prefix \<open>ev_\<close>.\<close>

record events =
  ev_user :: string
  ev_token :: string
  ev_amount :: string
  ev_timeStamp :: number
  ev_eventName :: string

text \<open>
  The callback of \<^verbatim>\<open>events.map\<close>: \<open>None\<close> is the \<^verbatim>\<open>null\<close> it returns when
  \<^verbatim>\<open>parseLog\<close> gives \<^verbatim>\<open>null\<close> and when anything in its \<^verbatim>\<open>try\<close> block throws
  (\<^verbatim>\<open>parseLog\<close> itself, or \<^verbatim>\<open>formatUnits\<close>).
\<close>

definition decodeLog :: "('f, 'l) contractJsonRPC \<Rightarrow> string \<Rightarrow> 'l \<Rightarrow> events option" where
  "decodeLog rpc evName lg =
     (case parseLog rpc lg of
        Inl _ \<Rightarrow> None
      | Inr None \<Rightarrow> None
      | Inr (Some args) \<Rightarrow>
          let formattedDate = times (Number_of_bigint (args_timeStamp args)) (Num 1000)
          in (case formatUnits (args_amount args) 18 of
                Inl _ \<Rightarrow> None
              | Inr formattedAmount \<Rightarrow>
                  Some \<lparr>ev_user = args_user args, ev_token = args_token args,
                        ev_amount = formattedAmount, ev_timeStamp = formattedDate,
                        ev_eventName = evName\<rparr>))"

text \<open>\<^verbatim>\<open>toBlock\<close> defaults to \<^verbatim>\<open>'latest'\<close> when the caller leaves it out.\<close>

definition queryFilterEventByAccount ::
  "('f, 'l) contractJsonRPC \<Rightarrow> string \<Rightarrow> string \<Rightarrow> number \<Rightarrow> blockTag option \<Rightarrow> events list settled"
where
  "queryFilterEventByAccount rpc acount evName fromBlock toBlock =
     await (filters rpc evName acount) (\<lambda>flt.
     await (queryFilter rpc flt fromBlock (case toBlock of None \<Rightarrow> BlockName ''latest'' | Some b \<Rightarrow> b))
       (\<lambda>evs. Inr (map the (filter (\<lambda>event. event \<noteq> None) (map (decodeLog rpc evName) evs)))))"

section \<open>The hook \<^verbatim>\<open>useHealthFactor\<close>\<close>

text \<open>
  The hook holds one piece of state, \<^verbatim>\<open>healthFactor\<close>, \<^verbatim>\<open>null\<close> at first. Its effect
  runs after the first render and after every render in which \<^verbatim>\<open>contract\<close> or
  \<^verbatim>\<open>account\<close> changed. The read it starts settles later, so the hook is a machine with
  two kinds of step: the effect runs with the current dependencies, or a read that is
  still in flight settles. The state records the reads issued (the account of each),
  how many of them have not settled, and the lines written to the console.
  \<^verbatim>\<open>!account\<close> holds for \<^verbatim>\<open>null\<close> and for the empty string.
\<close>

record hook =
  healthFactor :: "string option"
  issued :: "string list"
  in_flight :: nat
  console :: "string list"

definition useState_initial :: hook where
  "useState_initial = \<lparr>healthFactor = None, issued = [], in_flight = 0, console = []\<rparr>"

datatype 'h step =
    Effect "'h option" "string option"
  | Settled "string settled"

definition falsy :: "string option \<Rightarrow> bool" where
  "falsy account = (case account of None \<Rightarrow> True | Some a \<Rightarrow> a = [])"

text \<open>A read can only settle when one is in flight: \<open>None\<close> is a step that cannot
  happen.\<close>

fun hook_step :: "hook \<Rightarrow> 'h step \<Rightarrow> hook option" where
  "hook_step st (Effect contract account) =
     (if contract = None \<or> falsy account
      then Some (st\<lparr>console := console st @ [''useHealthFactor: Esperando valores correctos...'']\<rparr>)
      else Some (st\<lparr>issued := issued st @ [the account],
                    in_flight := Suc (in_flight st),
                    console := console st @ [''useHealthFactor: Ejecutando consulta...'']\<rparr>))"
| "hook_step st (Settled outcome) =
     (if in_flight st = 0 then None
      else (case outcome of
              Inr factor \<Rightarrow> Some (st\<lparr>healthFactor := Some factor, in_flight := in_flight st - 1\<rparr>)
            | Inl _ \<Rightarrow> Some (st\<lparr>in_flight := in_flight st - 1,
                                 console := console st @ [''Error fetching health factor:'']\<rparr>)))"

fun hook_run :: "hook \<Rightarrow> 'h step list \<Rightarrow> hook option" where
  "hook_run st [] = Some st"
| "hook_run st (x # xs) = (case hook_step st x of None \<Rightarrow> None | Some st' \<Rightarrow> hook_run st' xs)"

section \<open>Contract doubles\<close>

text \<open>
  Concrete handles on which the theorems below are instantiated: a contract whose
  \<^verbatim>\<open>getAssetValueInUSD\<close> echoes the amount it is given and whose transactions are all
  included, and an event log of three entries of which the second does not decode.
\<close>

abbreviation zeros :: "nat \<Rightarrow> string" where
  "zeros k \<equiv> replicate k (CHR ''0'')"

definition mock_tx :: transaction where
  "mock_tx = \<lparr>wait = Inr (Receipt 1)\<rparr>"

definition mock :: contract where
  "mock = \<lparr>
     c_getAssetValueInUSD = (\<lambda>token a. Inr a),
     c_collateralDeposited = (\<lambda>user token. Inr 0),
     c_depositCollateral = (\<lambda>token a. Inr mock_tx),
     c_borrowAsset = (\<lambda>token a t. Inr mock_tx),
     c_withdrawCollateralDeposited = (\<lambda>token. Inr mock_tx),
     c_repayLoan = (\<lambda>token a. Inr mock_tx),
     c_liquidatePosition = (\<lambda>u b k a. Inr mock_tx),
     c_userTotalBorrowedAssetInUsd = (\<lambda>user. Inr 0),
     c_userTotalCollateralAssetInUsd = (\<lambda>user. Inr 0),
     c_allowedBorrowingAmount = (\<lambda>user. Inr 0),
     c_checkForBrokenHealthFactor = (\<lambda>user. Inr ()),
     c_userHealthFactor = (\<lambda>user. Inr 1500000000000000000),
     c_addLiquidity = (\<lambda>token a t. Inr mock_tx),
     c_withdrawFromLiquidityPool = (\<lambda>token. Inr mock_tx),
     c_totalLiquidity = (\<lambda>token. Inr 0),
     c_calculateBasicLPRewards = (\<lambda>token. Inr 0),
     c_liquidityPool = (\<lambda>user token.
        Inr \<lparr>liq_amount = 5000000000000000000, liq_withdrawalTime = 1000, liq_addedAt = 2000\<rparr>),
     c_rebalancePortfolio = (\<lambda>f t a. Inr mock_tx),
     c_treasury = (\<lambda>token. Inr 0),
     c_tvl = (\<lambda>token. Inr 0),
     c_priceFeeds = (\<lambda>token. Inr ''0xfeed''),
     c_transferOwnership = (\<lambda>newOwner. Inr mock_tx),
     c_acceptOwnership = Inr mock_tx\<rparr>"

definition mock_args :: "int \<Rightarrow> int \<Rightarrow> log_args" where
  "mock_args a t = \<lparr>args_user = ''0xA1'', args_token = ''0xT1'', args_amount = a, args_timeStamp = t\<rparr>"

definition mock_rpc :: "(nat, nat) contractJsonRPC" where
  "mock_rpc = \<lparr>
     filters = (\<lambda>evName acount. Inr 0),
     queryFilter = (\<lambda>flt fromBlock toBlock. Inr [11, 12, 13]),
     parseLog = (\<lambda>lg.
        if lg = 11 then Inr (Some (mock_args 5000000000000000000 1700000000))
        else if lg = 12 then Inl (OtherError ''data out-of-bounds'')
        else if lg = 13 then Inr (Some (mock_args 2500000000000000000 1700000600))
        else if lg = 14 then Inr (Some (mock_args 1 9007199254740993))
        else Inr None)\<rparr>"

section \<open>Vocabulary of the statements\<close>


text \<open>
  A state-changing method submits and awaits: \<open>submission\<close> is how the contract call
  settled, \<open>result\<close> how the method did. The method rejects with the fault of the
  submission, or with the fault of \<^verbatim>\<open>wait()\<close>, and resolves with no value once
  \<^verbatim>\<open>wait()\<close> has resolved.
\<close>

definition submits_and_awaits :: "transaction settled \<Rightarrow> unit settled \<Rightarrow> bool" where
  "submits_and_awaits submission result =
     (case submission of
        Inl e \<Rightarrow> result = Inl e
      | Inr tx \<Rightarrow> (case wait tx of Inl e \<Rightarrow> result = Inl e | Inr r \<Rightarrow> result = Inr ()))"

text \<open>An entry of the log fails to decode when \<^verbatim>\<open>parseLog\<close> throws or returns
  \<^verbatim>\<open>null\<close>, or when its amount is outside the width \<^verbatim>\<open>formatUnits\<close> accepts.\<close>

definition decode_fails :: "('f, 'l) contractJsonRPC \<Rightarrow> 'l \<Rightarrow> bool" where
  "decode_fails rpc lg =
     (case parseLog rpc lg of
        Inl e \<Rightarrow> True
      | Inr None \<Rightarrow> True
      | Inr (Some args) \<Rightarrow> \<not> fits_width (args_amount args))"

text \<open>The event a decoded entry gives.\<close>

definition event_of :: "string \<Rightarrow> log_args \<Rightarrow> events" where
  "event_of evName args =
     \<lparr>ev_user = args_user args, ev_token = args_token args,
      ev_amount = toString (args_amount args) 18,
      ev_timeStamp = times (Number_of_bigint (args_timeStamp args)) (Num 1000),
      ev_eventName = evName\<rparr>"

text \<open>
  An event \<open>e\<close> is the decoding of the entry \<open>lg\<close>: \<^verbatim>\<open>parseLog\<close> gives the arguments of
  \<open>lg\<close>, and \<open>e\<close> carries their user and token, their amount as the decimal string that
  scales back to it, their time stamp times 1000, and the name of the event asked for.
\<close>

definition decodes_to :: "('f, 'l) contractJsonRPC \<Rightarrow> string \<Rightarrow> 'l \<Rightarrow> events \<Rightarrow> bool" where
  "decodes_to rpc evName lg e =
     (case parseLog rpc lg of
        Inl x \<Rightarrow> False
      | Inr None \<Rightarrow> False
      | Inr (Some args) \<Rightarrow>
          ev_user e = args_user args \<and> ev_token e = args_token args \<and>
          ev_amount e = toString (args_amount args) 18 \<and>
          parseUnits (ev_amount e) 18 = Inr (args_amount args) \<and>
          ev_timeStamp e = times (Number_of_bigint (args_timeStamp args)) (Num 1000) \<and>
          ev_eventName e = evName)"

text \<open>A read of a monetary amount rescales: \<open>read\<close> is how the contract call settled,
  \<open>result\<close> how the method did.\<close>

definition rescales :: "int settled \<Rightarrow> string settled \<Rightarrow> bool" where
  "rescales read result =
     (case read of
        Inl e \<Rightarrow> result = Inl e
      | Inr v \<Rightarrow> if fits_width v then result = Inr (toString v 18)
                 else result = Inl (NumericFault ''overflow''))"

text \<open>A step of the hook that starts a read: the effect runs with a handle and an
  account that is not empty.\<close>

definition starts_read :: "'h step \<Rightarrow> bool" where
  "starts_read x = (case x of Effect contract account \<Rightarrow> contract \<noteq> None \<and> \<not> falsy account
                            | Settled outcome \<Rightarrow> False)"

text \<open>The account an effect reads for.\<close>

definition effect_account :: "'h step \<Rightarrow> string" where
  "effect_account x = (case x of Effect contract account \<Rightarrow> (case account of Some a \<Rightarrow> a | None \<Rightarrow> [])
                               | Settled outcome \<Rightarrow> [])"

section \<open>Digits, rounding and padding\<close>

lemma bit_length_le: "m < 2 ^ k \<Longrightarrow> bit_length m \<le> k"
proof (induction k arbitrary: m)
  case 0
  then show ?case by (simp add: bit_length.simps)
next
  case (Suc k)
  show ?case
  proof (cases "m = 0")
    case True
    then show ?thesis by (simp add: bit_length.simps)
  next
    case False
    have "m div 2 < 2 ^ k" using Suc.prems by simp
    then have "bit_length (m div 2) \<le> k" by (rule Suc.IH)
    then show ?thesis using False by (subst bit_length.simps) simp
  qed
qed

lemma round_double_exact: "\<bar>n\<bar> < 2 ^ 53 \<Longrightarrow> round_double n = Num n"
proof -
  assume a: "\<bar>n\<bar> < 2 ^ 53"
  define m where "m = nat \<bar>n\<bar>"
  from a have "int m < int (2 ^ 53)" by (simp add: m_def)
  then have m53: "m < 2 ^ 53" by (rule of_nat_less_imp_less)
  then have e: "bit_length m - 53 = 0"
    using bit_length_le [of m 53] by simp
  have small: "\<not> (2::nat) ^ 1024 \<le> m"
    using m53 by simp
  have sg: "n < 0 \<Longrightarrow> - int m = n" "\<not> n < 0 \<Longrightarrow> int m = n"
    by (simp_all add: m_def)
  show ?thesis
    unfolding round_double_def m_def [symmetric] Let_def e
    using small sg by simp
qed

lemma digit_char_is_digit: "d < 10 \<Longrightarrow> is_digit (digit_char d)"
  by (simp add: is_digit_def digit_char_def)

lemma digit_val_digit_char: "d < 10 \<Longrightarrow> digit_val (digit_char d) = d"
  by (simp add: digit_val_def digit_char_def)

lemma digit_char_digit_val: "is_digit c \<Longrightarrow> digit_char (digit_val c) = c"
  by (simp add: is_digit_def digit_val_def digit_char_def)

lemma digit_val_lt: "is_digit c \<Longrightarrow> digit_val c < 10"
  by (auto simp: is_digit_def digit_val_def)

lemma bigint_toString_digits: "list_all is_digit (bigint_toString n)"
proof (induction n rule: bigint_toString.induct)
  case (1 n)
  show ?case
  proof (cases "n < 10")
    case True
    then show ?thesis by (subst bigint_toString.simps) (simp add: digit_char_is_digit)
  next
    case False
    with 1 show ?thesis by (subst bigint_toString.simps) (simp add: digit_char_is_digit)
  qed
qed

lemma bigint_toString_nonempty: "bigint_toString n \<noteq> []"
  by (subst bigint_toString.simps) simp

lemma nat_of_digits_snoc: "nat_of_digits (xs @ [c]) = 10 * nat_of_digits xs + digit_val c"
  by (simp add: nat_of_digits_def)

lemma nat_of_digits_bigint_toString: "nat_of_digits (bigint_toString n) = n"
proof (induction n rule: bigint_toString.induct)
  case (1 n)
  show ?case
  proof (cases "n < 10")
    case True
    then show ?thesis
      by (subst bigint_toString.simps) (simp add: nat_of_digits_def digit_val_digit_char)
  next
    case False
    with 1 show ?thesis
      by (subst bigint_toString.simps) (simp add: nat_of_digits_snoc digit_val_digit_char)
  qed
qed

lemma is_digit_not_minus: "is_digit c \<Longrightarrow> c \<noteq> CHR ''-''"
  by (auto simp: is_digit_def)

lemma Number_of_string_toString: "Number_of_string (toString v 0) = round_double v"
proof -
  define m where "m = nat \<bar>v\<bar>"
  obtain c r where cr: "bigint_toString m = c # r"
    using bigint_toString_nonempty [of m] by (cases "bigint_toString m") auto
  have dg: "list_all is_digit (c # r)"
    using bigint_toString_digits [of m] cr by simp
  then have c: "c \<noteq> CHR ''-''" by (simp add: is_digit_not_minus)
  have val: "nat_of_digits (c # r) = m"
    using nat_of_digits_bigint_toString [of m] cr by simp
  have ts: "toString v 0 = (if v < 0 then ''-'' else []) @ c # r"
    by (simp add: toString_def m_def [symmetric] cr)
  show ?thesis
  proof (cases "v < 0")
    case True
    then have "- int m = v" by (simp add: m_def)
    then show ?thesis
      using True dg val by (simp add: ts Number_of_string_def)
  next
    case False
    then have "int m = v" by (simp add: m_def)
    then show ?thesis
      using False dg val c by (simp add: ts Number_of_string_def)
  qed
qed

lemma digit_val_zero: "digit_val (CHR ''0'') = 0"
  by (simp add: digit_val_def)

lemma is_digit_zero: "is_digit (CHR ''0'')"
  by (simp add: is_digit_def)

lemma is_digit_not_dot: "is_digit c \<Longrightarrow> c \<noteq> CHR ''.''"
  by (auto simp: is_digit_def)

lemma digit_char_0: "digit_char 0 = CHR ''0''"
proof -
  have "char_of (48::nat) = CHR ''0''" by (simp add: char_of_eq_iff)
  then show ?thesis by (simp add: digit_char_def)
qed

lemma digit_val_eq_0: "is_digit c \<Longrightarrow> digit_val c = 0 \<Longrightarrow> c = CHR ''0''"
proof -
  assume d: "is_digit c" and z: "digit_val c = 0"
  have "digit_char (digit_val c) = c" using d by (rule digit_char_digit_val)
  then show ?thesis by (simp add: z digit_char_0)
qed

lemma nat_of_digits_Nil: "nat_of_digits [] = 0"
  by (simp add: nat_of_digits_def)

lemma foldl_digits_acc:
  "foldl (\<lambda>a c. 10 * a + digit_val c) a s = a * 10 ^ length s + foldl (\<lambda>a c. 10 * a + digit_val c) 0 s"
proof (induction s arbitrary: a)
  case Nil
  then show ?case by simp
next
  case (Cons c s)
  have "foldl (\<lambda>a c. 10 * a + digit_val c) (10 * a + digit_val c) s
      = (10 * a + digit_val c) * 10 ^ length s + foldl (\<lambda>a c. 10 * a + digit_val c) 0 s"
    by (rule Cons.IH)
  moreover have "foldl (\<lambda>a c. 10 * a + digit_val c) (digit_val c) s
      = digit_val c * 10 ^ length s + foldl (\<lambda>a c. 10 * a + digit_val c) 0 s"
    by (rule Cons.IH)
  ultimately show ?case by (simp add: algebra_simps)
qed

lemma nat_of_digits_Cons:
  "nat_of_digits (c # s) = digit_val c * 10 ^ length s + nat_of_digits s"
  using foldl_digits_acc [of "digit_val c" s] by (simp add: nat_of_digits_def)

lemma nat_of_digits_append:
  "nat_of_digits (xs @ ys) = nat_of_digits xs * 10 ^ length ys + nat_of_digits ys"
  using foldl_digits_acc [of "nat_of_digits xs" ys] by (simp add: nat_of_digits_def)

lemma nat_of_digits_zeros: "nat_of_digits (zeros k) = 0"
  by (induction k) (simp_all add: nat_of_digits_Nil nat_of_digits_Cons digit_val_zero)

lemma nat_of_digits_zeros_append: "nat_of_digits (zeros k @ s) = nat_of_digits s"
  by (simp add: nat_of_digits_append nat_of_digits_zeros)

lemma nat_of_digits_pos:
  "list_all is_digit s \<Longrightarrow> s \<noteq> [] \<Longrightarrow> hd s \<noteq> CHR ''0'' \<Longrightarrow> 0 < nat_of_digits s"
proof (cases s)
  case Nil
  then show "s \<noteq> [] \<Longrightarrow> 0 < nat_of_digits s" by simp
next
  case (Cons c r)
  assume d: "list_all is_digit s" and h: "hd s \<noteq> CHR ''0''"
  have "digit_val c \<noteq> 0" using d h Cons digit_val_eq_0 [of c] by auto
  then show "0 < nat_of_digits s" by (simp add: Cons nat_of_digits_Cons)
qed

text \<open>Digits without a leading zero are printed back as they are.\<close>

lemma bigint_toString_nat_of_digits:
  "list_all is_digit s \<Longrightarrow> s \<noteq> [] \<Longrightarrow> hd s \<noteq> CHR ''0'' \<Longrightarrow>
   bigint_toString (nat_of_digits s) = s"
proof (induction s rule: rev_induct)
  case Nil
  then show ?case by simp
next
  case (snoc c s)
  have c: "is_digit c" using snoc.prems(1) by simp
  show ?case
  proof (cases "s = []")
    case True
    have "nat_of_digits [c] = digit_val c" by (simp add: nat_of_digits_def)
    moreover have "digit_val c < 10" using c by (rule digit_val_lt)
    ultimately show ?thesis
      using True c by (subst bigint_toString.simps) (simp add: digit_char_digit_val)
  next
    case False
    then have hd: "hd s \<noteq> CHR ''0''" using snoc.prems(3) by simp
    have ds: "list_all is_digit s" using snoc.prems(1) by simp
    have ih: "bigint_toString (nat_of_digits s) = s"
      using snoc.IH ds False hd by simp
    have pos: "0 < nat_of_digits s" using ds False hd by (rule nat_of_digits_pos)
    have lt: "digit_val c < 10" using c by (rule digit_val_lt)
    let ?n = "10 * nat_of_digits s + digit_val c"
    have big: "\<not> ?n < 10" using pos by simp
    have dv: "?n div 10 = nat_of_digits s" using lt by simp
    have md: "?n mod 10 = digit_val c" using lt by simp
    have "bigint_toString ?n = bigint_toString (?n div 10) @ [digit_char (?n mod 10)]"
      using big by (subst bigint_toString.simps) simp
    then show ?thesis
      using c lt by (simp add: nat_of_digits_snoc ih digit_char_digit_val)
  qed
qed

text \<open>Printing the value of a string of digits loses only leading zeros.\<close>

lemma zeros_bigint_toString:
  "list_all is_digit s \<Longrightarrow> s \<noteq> [] \<Longrightarrow> \<exists>i. zeros i @ bigint_toString (nat_of_digits s) = s"
proof (induction s)
  case Nil
  then show ?case by simp
next
  case (Cons c s)
  have c: "is_digit c" using Cons.prems(1) by simp
  show ?case
  proof (cases "c = CHR ''0''")
    case False
    then have "bigint_toString (nat_of_digits (c # s)) = c # s"
      using Cons.prems by (intro bigint_toString_nat_of_digits) simp_all
    then have "zeros 0 @ bigint_toString (nat_of_digits (c # s)) = c # s" by simp
    then show ?thesis by blast
  next
    case True
    show ?thesis
    proof (cases "s = []")
      case True
      have "bigint_toString (nat_of_digits [CHR ''0'']) = [CHR ''0'']"
        by (subst bigint_toString.simps) (simp add: nat_of_digits_def digit_val_zero digit_char_0)
      then have "zeros 0 @ bigint_toString (nat_of_digits (c # s)) = c # s"
        using True \<open>c = CHR ''0''\<close> by simp
      then show ?thesis by blast
    next
      case False
      then obtain i where i: "zeros i @ bigint_toString (nat_of_digits s) = s"
        using Cons.IH Cons.prems(1) by auto
      have "nat_of_digits (c # s) = nat_of_digits s"
        using True by (simp add: nat_of_digits_Cons digit_val_zero)
      then have "zeros (Suc i) @ bigint_toString (nat_of_digits (c # s)) = c # s"
        using i True by simp
      then show ?thesis by blast
    qed
  qed
qed

lemma pad_whole_zeros:
  "\<exists>k. pad_whole t d = zeros k @ t \<and> d < k + length t \<and> (d < length t \<longrightarrow> k = 0)"
proof (induction t d rule: pad_whole.induct)
  case (1 str decimals)
  show ?case
  proof (cases "length str \<le> decimals")
    case False
    then have "pad_whole str decimals = zeros 0 @ str"
      by (subst pad_whole.simps) simp
    then show ?thesis using False by (intro exI [of _ 0]) simp
  next
    case True
    then obtain k where k: "pad_whole (Zeros @ str) decimals = zeros k @ Zeros @ str"
        "decimals < k + length (Zeros @ str)"
      using 1 by blast
    have "pad_whole str decimals = pad_whole (Zeros @ str) decimals"
      using True by (subst pad_whole.simps) simp
    then have "pad_whole str decimals = zeros (k + 128) @ str"
      using k(1) by (simp add: Zeros_def replicate_add)
    moreover have "decimals < (k + 128) + length str"
      using k(2) by (simp add: Zeros_def)
    ultimately show ?thesis using True by (intro exI [of _ "k + 128"]) simp
  qed
qed

lemma pad_decimal_zeros:
  "\<exists>k. pad_decimal f d = f @ zeros k \<and> d \<le> length f + k \<and> (d \<le> length f \<longrightarrow> k = 0)"
proof (induction f d rule: pad_decimal.induct)
  case (1 decimal decimals)
  show ?case
  proof (cases "length decimal < decimals")
    case False
    then have "pad_decimal decimal decimals = decimal @ zeros 0"
      by (subst pad_decimal.simps) simp
    then show ?thesis using False by (intro exI [of _ 0]) simp
  next
    case True
    then obtain k where k: "pad_decimal (decimal @ Zeros) decimals = (decimal @ Zeros) @ zeros k"
        "decimals \<le> length (decimal @ Zeros) + k"
      using 1 by blast
    have "pad_decimal decimal decimals = pad_decimal (decimal @ Zeros) decimals"
      using True by (subst pad_decimal.simps) simp
    then have "pad_decimal decimal decimals = decimal @ zeros (128 + k)"
      using k(1) by (simp add: Zeros_def replicate_add)
    moreover have "decimals \<le> length decimal + (128 + k)"
      using k(2) by (simp add: Zeros_def)
    ultimately show ?thesis using True by (intro exI [of _ "128 + k"]) simp
  qed
qed

text \<open>The two trimming loops.\<close>

lemma trim_leading_keep:
  "c \<noteq> CHR ''0'' \<Longrightarrow> trim_leading (c # r) = c # r"
  by (cases r) simp_all

lemma trim_leading_zero_dot:
  "trim_leading (CHR ''0'' # CHR ''.'' # r) = CHR ''0'' # CHR ''.'' # r"
  by simp

lemma trim_leading_zeros_dot:
  "trim_leading (zeros (Suc j) @ CHR ''.'' # r) = CHR ''0'' # CHR ''.'' # r"
  by (induction j) simp_all

lemma trim_leading_zeros_digits:
  "g \<noteq> [] \<Longrightarrow> list_all is_digit g \<Longrightarrow> hd g \<noteq> CHR ''0'' \<or> g = ''0'' \<Longrightarrow>
   trim_leading (zeros k @ g @ CHR ''.'' # r) = g @ CHR ''.'' # r"
proof (induction k)
  case 0
  then obtain c g' where g: "g = c # g'" by (cases g) auto
  show ?case
  proof (cases "c = CHR ''0''")
    case True
    then have "g = ''0''" using 0 g by auto
    then show ?thesis by simp
  next
    case False
    then show ?thesis by (simp add: g trim_leading_keep)
  qed
next
  case (Suc k)
  obtain c g' where g: "g = c # g'" using Suc.prems(1) by (cases g) auto
  have c: "c \<noteq> CHR ''.''" using Suc.prems(2) g by (simp add: is_digit_not_dot)
  obtain x xs where x: "zeros k @ g @ CHR ''.'' # r = x # xs" "x \<noteq> CHR ''.''"
    using c g by (cases k) auto
  have "trim_leading (zeros (Suc k) @ g @ CHR ''.'' # r) = trim_leading (x # xs)"
    using x by simp
  then show ?case using Suc x(1) by simp
qed

lemma list_all_zeros: "list_all (\<lambda>c. c = CHR ''0'') (zeros k)"
  by (simp add: list_all_iff)

lemma digits_zeros: "list_all is_digit (zeros k)"
  by (simp add: list_all_iff is_digit_zero)

lemma takeWhile_digits_dot:
  "list_all is_digit w \<Longrightarrow> takeWhile is_digit (w @ CHR ''.'' # f) = w"
  by (induction w) (auto simp: is_digit_def)

lemma dropWhile_digits_dot:
  "list_all is_digit w \<Longrightarrow> dropWhile is_digit (w @ CHR ''.'' # f) = CHR ''.'' # f"
  by (induction w) (auto simp: is_digit_def)

lemma takeWhile_digits: "list_all is_digit w \<Longrightarrow> takeWhile is_digit w = w"
  by (induction w) auto


lemma match_decimal_plain:
  assumes "list_all is_digit w" "list_all is_digit f"
  shows "match_decimal (w @ CHR ''.'' # f) = Some ([], w, f)"
proof -
  have nm: "\<And>c r. w @ CHR ''.'' # f = c # r \<Longrightarrow> c \<noteq> CHR ''-''"
    using assms(1) by (cases w) (auto simp: is_digit_not_minus)
  have first: "(case w @ CHR ''.'' # f of [] \<Rightarrow> ([], [])
        | c # r \<Rightarrow> if c = CHR ''-'' then (''-'', r) else ([], w @ CHR ''.'' # f))
      = ([], w @ CHR ''.'' # f)"
    using nm by (cases "w @ CHR ''.'' # f") auto
  have tw: "takeWhile is_digit (w @ CHR ''.'' # f) = w"
    using assms(1) by (rule takeWhile_digits_dot)
  have dw: "dropWhile is_digit (w @ CHR ''.'' # f) = CHR ''.'' # f"
    using assms(1) by (rule dropWhile_digits_dot)
  have tf: "takeWhile is_digit f = f" using assms(2) by (rule takeWhile_digits)
  have df: "\<forall>x\<in>set f. is_digit x" using assms(2) by (simp add: list_all_iff)
  show ?thesis
    unfolding match_decimal_def first
    by (simp add: Let_def tw dw tf df)
qed

lemma match_decimal_minus:
  assumes "list_all is_digit w" "list_all is_digit f"
  shows "match_decimal (CHR ''-'' # w @ CHR ''.'' # f) = Some (''-'', w, f)"
proof -
  have tw: "takeWhile is_digit (w @ CHR ''.'' # f) = w"
    using assms(1) by (rule takeWhile_digits_dot)
  have dw: "dropWhile is_digit (w @ CHR ''.'' # f) = CHR ''.'' # f"
    using assms(1) by (rule dropWhile_digits_dot)
  have tf: "takeWhile is_digit f = f" using assms(2) by (rule takeWhile_digits)
  have df: "\<forall>x\<in>set f. is_digit x" using assms(2) by (simp add: list_all_iff)
  show ?thesis
    unfolding match_decimal_def
    by (simp add: Let_def tw dw tf df)
qed

lemma match_decimal_signed:
  assumes "list_all is_digit w" "list_all is_digit f" "neg = [] \<or> neg = ''-''"
  shows "match_decimal (neg @ w @ CHR ''.'' # f) = Some (neg, w, f)"
  using assms match_decimal_plain [of w f] match_decimal_minus [of w f] by auto

text \<open>What \<open>parseUnits\<close> computes on a decimal with a point.\<close>

lemma parseUnits_matched:
  assumes "match_decimal s = Some (neg, w, f)" "w \<noteq> []" "pad_decimal f d = P"
    "list_all (\<lambda>c. c = CHR ''0'') (drop d P)" "take d P = T"
  shows "parseUnits s d =
     (if fits_width (BigInt neg (w @ T)) then Inr (BigInt neg (w @ T))
      else Inl (NumericFault ''overflow''))"
  using assms by (simp add: parseUnits_def Let_def)

lemma parseUnits_matched_fault:
  assumes "match_decimal s = Some (neg, w, f)" "f \<noteq> []" "pad_decimal f d = P"
    "\<not> list_all (\<lambda>c. c = CHR ''0'') (drop d P)"
  shows "parseUnits s d = Inl (NumericFault ''too many decimals for format'')"
  using assms by (simp add: parseUnits_def Let_def)

lemma parseUnits_short:
  assumes w: "list_all is_digit w" "w \<noteq> []" and f: "list_all is_digit f" "length f \<le> d"
    and neg: "neg = [] \<or> neg = ''-''"
  shows "parseUnits (neg @ w @ CHR ''.'' # f) d =
     (if fits_width (BigInt neg (w @ f @ zeros (d - length f)))
      then Inr (BigInt neg (w @ f @ zeros (d - length f)))
      else Inl (NumericFault ''overflow''))"
proof -
  obtain k where k: "pad_decimal f d = f @ zeros k" "d \<le> length f + k"
    using pad_decimal_zeros [of f d] by blast
  have le: "d - length f \<le> k" using f(2) k(2) by linarith
  have tk: "take d (f @ zeros k) = f @ zeros (d - length f)"
    using f(2) le by (simp add: min_def)
  from le have dr: "drop d (f @ zeros k) = zeros (k - (d - length f))"
    using f(2) by simp
  have z: "list_all (\<lambda>c. c = CHR ''0'') (drop d (f @ zeros k))"
    by (simp only: dr list_all_zeros)
  have m: "match_decimal (neg @ w @ CHR ''.'' # f) = Some (neg, w, f)"
    using w(1) f(1) neg by (rule match_decimal_signed)
  show ?thesis
    using m w(2) k(1) z tk by (rule parseUnits_matched)
qed

lemma parseUnits_long_fault:
  assumes w: "list_all is_digit w" and f: "list_all is_digit f" "d < length f"
    and neg: "neg = [] \<or> neg = ''-''"
    and nz: "\<not> list_all (\<lambda>c. c = CHR ''0'') (drop d f)"
  shows "parseUnits (neg @ w @ CHR ''.'' # f) d = Inl (NumericFault ''too many decimals for format'')"
proof -
  have p: "pad_decimal f d = f"
    using f(2) by (subst pad_decimal.simps) simp
  have m: "match_decimal (neg @ w @ CHR ''.'' # f) = Some (neg, w, f)"
    using w f(1) neg by (rule match_decimal_signed)
  have ne: "f \<noteq> []" using f(2) by auto
  show ?thesis
    using m ne p nz by (rule parseUnits_matched_fault)
qed

lemma parseUnits_matched_any:
  assumes "match_decimal s = Some (neg, w, f)" "w \<noteq> [] \<or> f \<noteq> []" "pad_decimal f d = P"
    "list_all (\<lambda>c. c = CHR ''0'') (drop d P)" "take d P = T"
  shows "parseUnits s d =
     (if fits_width (BigInt neg ((if w = [] then ''0'' else w) @ T))
      then Inr (BigInt neg ((if w = [] then ''0'' else w) @ T))
      else Inl (NumericFault ''overflow''))"
  using assms by (auto simp: parseUnits_def Let_def)

lemma parseUnits_long_zeros:
  assumes w: "list_all is_digit w" and f: "list_all is_digit f" "d < length f" "0 < d"
    and neg: "neg = [] \<or> neg = ''-''"
    and z: "list_all (\<lambda>c. c = CHR ''0'') (drop d f)"
  shows "parseUnits (neg @ w @ CHR ''.'' # f) d = parseUnits (neg @ w @ CHR ''.'' # take d f) d"
proof -
  have ne: "w \<noteq> [] \<or> f \<noteq> []" using f(2) by auto
  have p: "pad_decimal f d = f"
    using f(2) by (subst pad_decimal.simps) simp
  have m: "match_decimal (neg @ w @ CHR ''.'' # f) = Some (neg, w, f)"
    using w f(1) neg by (rule match_decimal_signed)
  have a: "parseUnits (neg @ w @ CHR ''.'' # f) d =
     (if fits_width (BigInt neg ((if w = [] then ''0'' else w) @ take d f))
      then Inr (BigInt neg ((if w = [] then ''0'' else w) @ take d f))
      else Inl (NumericFault ''overflow''))"
    using m ne p z refl by (rule parseUnits_matched_any)
  have f': "list_all is_digit (take d f)"
    using f(1) by (auto simp: list_all_iff dest: in_set_takeD)
  have ne': "w \<noteq> [] \<or> take d f \<noteq> []" using f(2,3) by (cases f) auto
  have p': "pad_decimal (take d f) d = take d f"
    using f(2) by (subst pad_decimal.simps) simp
  have m': "match_decimal (neg @ w @ CHR ''.'' # take d f) = Some (neg, w, take d f)"
    using w f' neg by (rule match_decimal_signed)
  have z': "list_all (\<lambda>c. c = CHR ''0'') (drop d (take d f))" by simp
  have t': "take d (take d f) = take d f" by simp
  have b: "parseUnits (neg @ w @ CHR ''.'' # take d f) d =
     (if fits_width (BigInt neg ((if w = [] then ''0'' else w) @ take d f))
      then Inr (BigInt neg ((if w = [] then ''0'' else w) @ take d f))
      else Inl (NumericFault ''overflow''))"
    using m' ne' p' z' t' by (rule parseUnits_matched_any)
  show ?thesis by (simp only: a b)
qed

text \<open>What \<open>toString\<close> gives back for the digits \<open>w @ F\<close>, \<open>F\<close> the fractional ones.\<close>

lemma split_point:
  assumes w: "list_all is_digit w" "w \<noteq> []" "hd w \<noteq> CHR ''0'' \<or> w = ''0''"
    and F: "list_all is_digit F" "length F = d" "0 < d"
  defines "str1 \<equiv> pad_whole (bigint_toString (nat_of_digits (w @ F))) d"
  shows "trim_leading (take (length str1 - d) str1 @ ''.'' @ drop (length str1 - d) str1)
     = w @ ''.'' @ F"
proof (cases "hd w \<noteq> CHR ''0''")
  case True
  have s: "bigint_toString (nat_of_digits (w @ F)) = w @ F"
    using w(1,2) F(1) True by (intro bigint_toString_nat_of_digits) simp_all
  obtain k where k: "pad_whole (w @ F) d = zeros k @ w @ F" "d < length (w @ F) \<longrightarrow> k = 0"
    using pad_whole_zeros [of "w @ F" d] by blast
  have "d < length (w @ F)" using w(2) F(2) by (cases w) simp_all
  then have "str1 = w @ F" using k by (simp add: str1_def s)
  then have "take (length str1 - d) str1 @ ''.'' @ drop (length str1 - d) str1 = w @ ''.'' @ F"
    using F(2) by simp
  moreover obtain c r where "w = c # r" using w(2) by (cases w) auto
  ultimately show ?thesis using True by (simp add: trim_leading_keep)
next
  case False
  then have w0: "w = ''0''" using w(3) by blast
  have dg: "list_all is_digit (w @ F)" using w(1) F(1) by simp
  obtain i where i: "zeros i @ bigint_toString (nat_of_digits (w @ F)) = w @ F"
    using zeros_bigint_toString [of "w @ F"] dg w(2) by auto
  obtain k where k: "str1 = zeros k @ bigint_toString (nat_of_digits (w @ F))"
      "d < k + length (bigint_toString (nat_of_digits (w @ F)))"
    using pad_whole_zeros [of "bigint_toString (nat_of_digits (w @ F))" d]
    by (auto simp: str1_def)
  have "length (zeros i @ bigint_toString (nat_of_digits (w @ F))) = Suc d"
    using i w0 F(2) by simp
  then have li: "i + length (bigint_toString (nat_of_digits (w @ F))) = Suc d" by simp
  then have ik: "i \<le> k" using k(2) by linarith
  have "str1 = zeros (k - i) @ zeros i @ bigint_toString (nat_of_digits (w @ F))"
    using ik k(1) by (simp add: replicate_add [symmetric] del: replicate_add)
  then have str1: "str1 = zeros (Suc (k - i)) @ F"
    using i w0 by (simp add: replicate_app_Cons_same)
  have "take (length str1 - d) str1 @ ''.'' @ drop (length str1 - d) str1
      = zeros (Suc (k - i)) @ CHR ''.'' # F"
    using F(2) by (simp add: str1)
  then show ?thesis
    using trim_leading_zeros_dot [of "k - i" F] by (simp add: w0)
qed

lemma trim_trailing_frac:
  assumes f: "list_all is_digit f" "f \<noteq> []" "last f \<noteq> CHR ''0'' \<or> f = ''0''"
  shows "trim_trailing (w @ ''.'' @ f @ zeros k) = w @ ''.'' @ f"
proof -
  have g: "rev f \<noteq> []" "list_all is_digit (rev f)" "hd (rev f) \<noteq> CHR ''0'' \<or> rev f = ''0''"
    using f by (auto simp: hd_rev list_all_iff)
  have "trim_leading (zeros k @ rev f @ CHR ''.'' # rev w) = rev f @ CHR ''.'' # rev w"
    using g by (rule trim_leading_zeros_digits)
  then show ?thesis by (simp add: trim_trailing_def)
qed

lemma toString_digits:
  assumes w: "list_all is_digit w" "w \<noteq> []" "hd w \<noteq> CHR ''0'' \<or> w = ''0''"
    and f: "list_all is_digit f" "f \<noteq> []" "last f \<noteq> CHR ''0'' \<or> f = ''0''" "length f \<le> d"
    and neg: "neg = [] \<or> (neg = ''-'' \<and> 0 < nat_of_digits (w @ f))"
  shows "toString (BigInt neg (w @ f @ zeros (d - length f))) d = neg @ w @ ''.'' @ f"
proof -
  let ?F = "f @ zeros (d - length f)"
  let ?N = "nat_of_digits (w @ ?F)"
  have d: "0 < d" using f(2,4) by (cases f) auto
  have F: "list_all is_digit ?F" "length ?F = d"
    using f(1,4) by (simp_all add: digits_zeros)
  have N: "?N = nat_of_digits (w @ f) * 10 ^ (d - length f)"
    using nat_of_digits_append [of "w @ f" "zeros (d - length f)"]
    by (simp add: nat_of_digits_zeros)
  have sgn: "(BigInt neg (w @ ?F) < 0) = (neg = ''-'')"
  proof (cases "neg = ''-''")
    case True
    then have "0 < ?N" using neg N by simp
    then show ?thesis using True by (simp add: BigInt_def)
  next
    case False
    have "0 \<le> int ?N" by simp
    then show ?thesis using False unfolding BigInt_def by (simp del: of_nat_0_le_iff)
  qed
  have mag: "nat \<bar>BigInt neg (w @ ?F)\<bar> = ?N"
    by (simp add: BigInt_def)
  define str1 where "str1 = pad_whole (bigint_toString ?N) d"
  define v where "v = BigInt neg (w @ ?F)"
  have sp: "trim_leading (take (length str1 - d) str1 @ ''.'' @ drop (length str1 - d) str1)
      = w @ ''.'' @ ?F"
    unfolding str1_def using w F d by (rule split_point)
  have tt: "trim_trailing (w @ ''.'' @ f @ zeros (d - length f)) = w @ ''.'' @ f"
    using f(1,2,3) by (rule trim_trailing_frac)
  have "toString v d = (if v < 0 then ''-'' else []) @
      trim_trailing (trim_leading (take (length str1 - d) str1 @ ''.'' @ drop (length str1 - d) str1))"
    using d by (simp add: toString_def Let_def str1_def v_def mag)
  also have "\<dots> = (if v < 0 then ''-'' else []) @ w @ ''.'' @ f"
    by (simp only: sp) (simp only: tt)
  also have "\<dots> = neg @ w @ ''.'' @ f"
    using neg sgn by (auto simp: v_def)
  finally show ?thesis by (simp only: v_def)
qed

section \<open>Formatting, then scaling again\<close>

lemma digit_char_not_zero: "0 < n \<Longrightarrow> n < 10 \<Longrightarrow> digit_char n \<noteq> CHR ''0''"
proof
  assume n: "0 < n" "n < 10" and z: "digit_char n = CHR ''0''"
  have "digit_val (digit_char n) = n" using n(2) by (rule digit_val_digit_char)
  then show False using n(1) by (simp add: z digit_val_zero)
qed

lemma bigint_toString_no_leading_zero:
  "hd (bigint_toString n) \<noteq> CHR ''0'' \<or> bigint_toString n = ''0''"
proof (induction n rule: bigint_toString.induct)
  case (1 n)
  show ?case
  proof (cases "n < 10")
    case True
    show ?thesis
    proof (cases "n = 0")
      case True
      then show ?thesis by (subst (2) bigint_toString.simps) (simp add: digit_char_0)
    next
      case False
      then have "digit_char n \<noteq> CHR ''0''" using True by (intro digit_char_not_zero) simp_all
      then show ?thesis using True by (subst bigint_toString.simps) simp
    qed
  next
    case False
    have ne: "bigint_toString (n div 10) \<noteq> []" by (rule bigint_toString_nonempty)
    have "bigint_toString (n div 10) \<noteq> ''0''"
    proof
      assume "bigint_toString (n div 10) = ''0''"
      then have "nat_of_digits ''0'' = n div 10"
        using nat_of_digits_bigint_toString [of "n div 10"] by simp
      then show False using False by (simp add: nat_of_digits_def digit_val_zero)
    qed
    then have "hd (bigint_toString (n div 10)) \<noteq> CHR ''0''" using 1 False by blast
    then have "hd (bigint_toString (n div 10) @ [digit_char (n mod 10)]) \<noteq> CHR ''0''"
      using ne by simp
    then show ?thesis using False by (subst bigint_toString.simps) simp
  qed
qed

lemma strip_trailing_zeros:
  "F \<noteq> [] \<Longrightarrow> \<exists>f k. F = f @ zeros k \<and> f \<noteq> [] \<and> (last f \<noteq> CHR ''0'' \<or> f = ''0'')"
proof (induction F rule: rev_induct)
  case Nil
  then show ?case by simp
next
  case (snoc c F)
  show ?case
  proof (cases "c = CHR ''0''")
    case False
    then have "F @ [c] = (F @ [c]) @ zeros 0 \<and> F @ [c] \<noteq> [] \<and> last (F @ [c]) \<noteq> CHR ''0''"
      by simp
    then show ?thesis by blast
  next
    case True
    show ?thesis
    proof (cases "F = []")
      case True
      then have "F @ [c] = ''0'' @ zeros 0 \<and> ''0'' \<noteq> []" using \<open>c = CHR ''0''\<close> by simp
      then show ?thesis by blast
    next
      case False
      then obtain f k where fk: "F = f @ zeros k" "f \<noteq> []" "last f \<noteq> CHR ''0'' \<or> f = ''0''"
        using snoc.IH by blast
      have "F @ [c] = f @ zeros (Suc k)"
        using fk(1) True by (simp add: replicate_append_same)
      then show ?thesis using fk(2,3) by blast
    qed
  qed
qed

text \<open>Every integer is the value of a decimal in normal form with at most \<open>d\<close> fractional
  digits.\<close>

lemma normal_decimal_exists:
  assumes d: "0 < d"
  shows "\<exists>neg w f. list_all is_digit w \<and> w \<noteq> [] \<and> (hd w \<noteq> CHR ''0'' \<or> w = ''0'') \<and>
      list_all is_digit f \<and> f \<noteq> [] \<and> (last f \<noteq> CHR ''0'' \<or> f = ''0'') \<and> length f \<le> d \<and>
      (neg = [] \<or> (neg = ''-'' \<and> 0 < nat_of_digits (w @ f))) \<and>
      BigInt neg (w @ f @ zeros (d - length f)) = v"
proof -
  define N where "N = nat \<bar>v\<bar>"
  define t where "t = bigint_toString N"
  have t: "list_all is_digit t" "t \<noteq> []" "nat_of_digits t = N"
    by (simp_all add: t_def bigint_toString_digits bigint_toString_nonempty
        nat_of_digits_bigint_toString)
  have t0: "hd t \<noteq> CHR ''0'' \<or> t = ''0''"
    unfolding t_def by (rule bigint_toString_no_leading_zero)
  have "\<exists>w F. list_all is_digit w \<and> w \<noteq> [] \<and> (hd w \<noteq> CHR ''0'' \<or> w = ''0'') \<and>
      list_all is_digit F \<and> length F = d \<and> nat_of_digits (w @ F) = N"
  proof (cases "d < length t")
    case True
    let ?w = "take (length t - d) t" and ?F = "drop (length t - d) t"
    have "t \<noteq> ''0''" using True d by auto
    then have h: "hd t \<noteq> CHR ''0''" using t0 by blast
    have w: "?w \<noteq> []" using True t(2) by simp
    then have hw: "hd ?w = hd t" by (simp add: hd_take)
    have "list_all is_digit (?w @ ?F)" using t(1) by simp
    then have dg: "list_all is_digit ?w" "list_all is_digit ?F"
      by (simp_all only: list_all_append)
    have hw': "hd ?w \<noteq> CHR ''0'' \<or> ?w = ''0''" using hw h by simp
    have len: "length ?F = d" using True by simp
    have val: "nat_of_digits (?w @ ?F) = N" using t(3) by simp
    have "list_all is_digit ?w \<and> ?w \<noteq> [] \<and> (hd ?w \<noteq> CHR ''0'' \<or> ?w = ''0'') \<and>
      list_all is_digit ?F \<and> length ?F = d \<and> nat_of_digits (?w @ ?F) = N"
      using dg w hw' len val by (intro conjI)
    then show ?thesis by (intro exI [of _ ?w] exI [of _ ?F])
  next
    case False
    let ?F = "zeros (d - length t) @ t"
    have dF: "list_all is_digit ?F" using t(1) by (simp add: digits_zeros)
    have len: "length ?F = d" using False by simp
    have val: "nat_of_digits (''0'' @ ?F) = N"
      using nat_of_digits_zeros_append [of "Suc (d - length t)" t] t(3) by simp
    have d0: "list_all is_digit ''0''" by (simp add: is_digit_zero)
    have n0: "''0'' \<noteq> []" by simp
    have h0: "hd ''0'' \<noteq> CHR ''0'' \<or> ''0'' = ''0''" by simp
    have "list_all is_digit ''0'' \<and> ''0'' \<noteq> [] \<and> (hd ''0'' \<noteq> CHR ''0'' \<or> ''0'' = ''0'') \<and>
      list_all is_digit ?F \<and> length ?F = d \<and> nat_of_digits (''0'' @ ?F) = N"
      using d0 n0 h0 dF len val by (intro conjI)
    then show ?thesis by (intro exI [of _ "''0''"] exI [of _ ?F])
  qed
  then obtain w F where wF: "list_all is_digit w" "w \<noteq> []" "hd w \<noteq> CHR ''0'' \<or> w = ''0''"
      "list_all is_digit F" "length F = d" "nat_of_digits (w @ F) = N"
    by blast
  have "F \<noteq> []" using wF(5) d by auto
  then obtain f k where fk: "F = f @ zeros k" "f \<noteq> []" "last f \<noteq> CHR ''0'' \<or> f = ''0''"
    using strip_trailing_zeros by blast
  have k: "k = d - length f" and lf: "length f \<le> d" using wF(5) fk(1) by auto
  have df: "list_all is_digit f" using wF(4) fk(1) by simp
  have val: "nat_of_digits (w @ f) * 10 ^ k = N"
    using wF(6) fk(1) nat_of_digits_append [of "w @ f" "zeros k"]
    by (simp add: nat_of_digits_zeros)
  define neg where "neg = (if v < 0 then ''-'' else [])"
  have pos: "v < 0 \<Longrightarrow> 0 < nat_of_digits (w @ f)"
  proof -
    assume "v < 0"
    then have "0 < N" by (simp add: N_def)
    then show ?thesis using val by (cases "nat_of_digits (w @ f)") auto
  qed
  have sg: "neg = [] \<or> (neg = ''-'' \<and> 0 < nat_of_digits (w @ f))"
    using pos by (auto simp: neg_def)
  have "BigInt neg (w @ f @ zeros k) = v"
    using wF(6) fk(1) by (auto simp: BigInt_def neg_def N_def)
  then have "BigInt neg (w @ f @ zeros (d - length f)) = v" by (simp only: k)
  then have "list_all is_digit w \<and> w \<noteq> [] \<and> (hd w \<noteq> CHR ''0'' \<or> w = ''0'') \<and>
      list_all is_digit f \<and> f \<noteq> [] \<and> (last f \<noteq> CHR ''0'' \<or> f = ''0'') \<and> length f \<le> d \<and>
      (neg = [] \<or> (neg = ''-'' \<and> 0 < nat_of_digits (w @ f))) \<and>
      BigInt neg (w @ f @ zeros (d - length f)) = v"
    using wF(1,2,3) df fk(2,3) lf sg by (intro conjI)
  then show ?thesis by (intro exI [of _ neg] exI [of _ w] exI [of _ f])
qed

lemma parseUnits_toString:
  assumes "fits_width v" "0 < d"
  shows "parseUnits (toString v d) d = Inr v"
proof -
  obtain neg w f where n: "list_all is_digit w" "w \<noteq> []" "hd w \<noteq> CHR ''0'' \<or> w = ''0''"
      "list_all is_digit f" "f \<noteq> []" "last f \<noteq> CHR ''0'' \<or> f = ''0''" "length f \<le> d"
      "neg = [] \<or> (neg = ''-'' \<and> 0 < nat_of_digits (w @ f))"
      "BigInt neg (w @ f @ zeros (d - length f)) = v"
    using normal_decimal_exists [OF assms(2), of v] by blast
  have "toString (BigInt neg (w @ f @ zeros (d - length f))) d = neg @ w @ ''.'' @ f"
    using n(1-8) by (rule toString_digits)
  then have ts: "toString v d = neg @ w @ CHR ''.'' # f" by (simp add: n(9))
  have neg': "neg = [] \<or> neg = ''-''" using n(8) by blast
  have "parseUnits (neg @ w @ CHR ''.'' # f) d =
     (if fits_width (BigInt neg (w @ f @ zeros (d - length f)))
      then Inr (BigInt neg (w @ f @ zeros (d - length f)))
      else Inl (NumericFault ''overflow''))"
    using n(1,2,4,7) neg' by (rule parseUnits_short)
  then show ?thesis using assms(1) by (simp add: ts n(9))
qed


section \<open>Concrete values\<close>

lemma BigInt_scaled:
  "BigInt neg (w @ f @ zeros k) =
     (if neg = ''-'' then - int (nat_of_digits (w @ f) * 10 ^ k)
      else int (nat_of_digits (w @ f) * 10 ^ k))"
  using nat_of_digits_append [of "w @ f" "zeros k"]
  by (simp add: BigInt_def nat_of_digits_zeros)




lemma toString_5: "toString 5000000000000000000 18 = ''5.0''"
proof -
  have "toString (BigInt [] (''5'' @ ''0'' @ zeros (18 - length ''0''))) 18 = [] @ ''5'' @ ''.'' @ ''0''"
    by (rule toString_digits) (simp_all add: is_digit_def)
  moreover have "BigInt [] (''5'' @ ''0'' @ zeros (18 - length ''0'')) = 5000000000000000000"
    using BigInt_scaled [of "[]" "''5''" "''0''" 17]
    by (simp add: nat_of_digits_def digit_val_def)
  ultimately show ?thesis by simp
qed

lemma parseUnits_1_5: "parseUnits ''1.5'' 18 = Inr 1500000000000000000"
proof -
  have "parseUnits ([] @ ''1'' @ CHR ''.'' # ''5'') 18 =
     (if fits_width (BigInt [] (''1'' @ ''5'' @ zeros (18 - length ''5'')))
      then Inr (BigInt [] (''1'' @ ''5'' @ zeros (18 - length ''5'')))
      else Inl (NumericFault ''overflow''))"
    by (rule parseUnits_short) (simp_all add: is_digit_def)
  moreover have "BigInt [] (''1'' @ ''5'' @ zeros (18 - length ''5'')) = 1500000000000000000"
    using BigInt_scaled [of "[]" "''1''" "''5''" 17]
    by (simp add: nat_of_digits_def digit_val_def)
  ultimately show ?thesis by (simp add: fits_width_def)
qed


lemma toString_1_5: "toString 1500000000000000000 18 = ''1.5''"
proof -
  have "toString (BigInt [] (''1'' @ ''5'' @ zeros (18 - length ''5''))) 18 = [] @ ''1'' @ ''.'' @ ''5''"
    by (rule toString_digits) (simp_all add: is_digit_def)
  moreover have "BigInt [] (''1'' @ ''5'' @ zeros (18 - length ''5'')) = 1500000000000000000"
    using BigInt_scaled [of "[]" "''1''" "''5''" 17]
    by (simp add: nat_of_digits_def digit_val_def)
  ultimately show ?thesis by simp
qed

lemma toString_2_5: "toString 2500000000000000000 18 = ''2.5''"
proof -
  have "toString (BigInt [] (''2'' @ ''5'' @ zeros (18 - length ''5''))) 18 = [] @ ''2'' @ ''.'' @ ''5''"
    by (rule toString_digits) (simp_all add: is_digit_def)
  moreover have "BigInt [] (''2'' @ ''5'' @ zeros (18 - length ''5'')) = 2500000000000000000"
    using BigInt_scaled [of "[]" "''2''" "''5''" 17]
    by (simp add: nat_of_digits_def digit_val_def)
  ultimately show ?thesis by simp
qed

lemma parseUnits_abc: "parseUnits ''abc'' 18 = Inl (InvalidArgument ''invalid FixedNumber string value'')"
proof -
  have nd: "\<not> is_digit CHR ''a''" by (simp add: is_digit_def)
  have dw: "dropWhile is_digit ''abc'' = ''abc''" using nd by simp
  have first: "(case ''abc'' of [] \<Rightarrow> ([], [])
        | c # r \<Rightarrow> if c = CHR ''-'' then (''-'', r) else ([], ''abc'')) = ([], ''abc'')"
    by simp
  have "match_decimal ''abc'' = None"
    unfolding match_decimal_def first Let_def prod.case dw by (simp add: nd)
  then show ?thesis by (simp add: parseUnits_def)
qed

lemma parseUnits_19_digits:
  "parseUnits ''1.0000000000000000019'' 18 = Inl (NumericFault ''too many decimals for format'')"
proof -
  have "parseUnits ([] @ ''1'' @ CHR ''.'' # ''0000000000000000019'') 18
      = Inl (NumericFault ''too many decimals for format'')"
    by (rule parseUnits_long_fault) (simp_all add: is_digit_def)
  then show ?thesis by simp
qed

lemma parseUnits_19_digits_zero:
  "parseUnits ''1.5000000000000000000'' 18 = Inr 1500000000000000000"
proof -
  have "parseUnits ([] @ ''1'' @ CHR ''.'' # ''5000000000000000000'') 18
      = parseUnits ([] @ ''1'' @ CHR ''.'' # take 18 ''5000000000000000000'') 18"
    by (rule parseUnits_long_zeros) (simp_all add: is_digit_def)
  moreover have "parseUnits ([] @ ''1'' @ CHR ''.'' # ''500000000000000000'') 18 =
     (if fits_width (BigInt [] (''1'' @ ''500000000000000000'' @ zeros (18 - length ''500000000000000000'')))
      then Inr (BigInt [] (''1'' @ ''500000000000000000'' @ zeros (18 - length ''500000000000000000'')))
      else Inl (NumericFault ''overflow''))"
    by (rule parseUnits_short) (simp_all add: is_digit_def)
  moreover have "BigInt [] (''1'' @ ''500000000000000000'' @ zeros (18 - length ''500000000000000000''))
      = 1500000000000000000"
    using BigInt_scaled [of "[]" "''1''" "''500000000000000000''" 0]
    by (simp add: nat_of_digits_def digit_val_def)
  ultimately show ?thesis by (simp add: fits_width_def)
qed

section \<open>Awaiting, and the methods that take an amount\<close>

lemma await_Inr: "await (Inr v) k = k v"
  by (simp add: await_def)

lemma await_Inl: "await (Inl e) k = Inl e"
  by (simp add: await_def)

lemma submits_and_awaits_await:
  "submits_and_awaits s (await s (\<lambda>tx. await (wait tx) (\<lambda>_. Inr ())))"
  by (simp add: submits_and_awaits_def await_def split: sum.splits)

lemma fits_width_small: "\<bar>x\<bar> < 2 ^ 53 \<Longrightarrow> fits_width x"
  by (auto simp: fits_width_def)

lemma formatUnits_fits: "fits_width v \<Longrightarrow> formatUnits v d = Inr (toString v d)"
  by (simp add: formatUnits_def)

text \<open>A method that takes an amount rejects with the fault of \<open>parseUnits\<close>, whatever
  the contract would answer.\<close>

lemma amount_fault:
  assumes "parseUnits amount 18 = Inl e"
  shows "getAssetValueInUSD c token amount = Inl e"
    and "depositCollateral c token amount = Inl e"
    and "borrowAsset c token amount ts = Inl e"
    and "repayLoan c token amount = Inl e"
    and "liquidatePosition c who token collateral amount = Inl e"
    and "addLiquidity c token amount ts = Inl e"
    and "rebalancePortfolio c token swapTo amount = Inl e"
  using assms
  by (simp_all add: getAssetValueInUSD_def depositCollateral_def borrowAsset_def repayLoan_def
      liquidatePosition_def addLiquidity_def rebalancePortfolio_def await_Inl)

text \<open>It reads the amount through \<open>parseUnits\<close> only.\<close>

lemma amount_through_parseUnits:
  assumes "parseUnits amount 18 = parseUnits amount' 18"
  shows "getAssetValueInUSD c token amount = getAssetValueInUSD c token amount'"
    and "depositCollateral c token amount = depositCollateral c token amount'"
    and "borrowAsset c token amount ts = borrowAsset c token amount' ts"
    and "repayLoan c token amount = repayLoan c token amount'"
    and "liquidatePosition c who token collateral amount
           = liquidatePosition c who token collateral amount'"
    and "addLiquidity c token amount ts = addLiquidity c token amount' ts"
    and "rebalancePortfolio c token swapTo amount = rebalancePortfolio c token swapTo amount'"
  using assms
  by (simp_all add: getAssetValueInUSD_def depositCollateral_def borrowAsset_def repayLoan_def
      liquidatePosition_def addLiquidity_def rebalancePortfolio_def)

section \<open>The liquidity position, the event log and the hook\<close>

lemma getLiquidityPool_general:
  assumes "c_liquidityPool c user token = Inr l" "fits_width (liq_amount l)"
    "\<bar>liq_withdrawalTime l\<bar> < 2 ^ 53" "\<bar>liq_addedAt l\<bar> < 2 ^ 53"
  shows "getLiquidityPool c user token =
      Inr \<lparr>pool_amount = toString (liq_amount l) 18,
           pool_withdrawalTime = Num (liq_withdrawalTime l),
           pool_addedAt = Num (liq_addedAt l)\<rparr>"
  using assms
  by (simp add: getLiquidityPool_def await_Inr formatUnits_fits fits_width_small
      Number_of_string_toString round_double_exact)

lemma getLiquidityPool_rejects:
  "c_liquidityPool c user token = Inl e \<Longrightarrow> getLiquidityPool c user token = Inl e"
  by (simp add: getLiquidityPool_def await_Inl)

lemma decodeLog_fails: "decode_fails rpc lg \<Longrightarrow> decodeLog rpc evName lg = None"
  by (auto simp: decode_fails_def decodeLog_def formatUnits_def Let_def
      split: sum.splits option.splits)

lemma decodeLog_ok:
  "parseLog rpc lg = Inr (Some args) \<Longrightarrow> fits_width (args_amount args) \<Longrightarrow>
   decodeLog rpc evName lg = Some (event_of evName args)"
  by (simp add: decodeLog_def formatUnits_def Let_def event_of_def)

lemma queryFilterEventByAccount_batch:
  assumes "filters rpc evName acount = Inr flt"
    and "queryFilter rpc flt fromBlock (case toBlock of None \<Rightarrow> BlockName ''latest'' | Some b \<Rightarrow> b) = Inr evs"
  shows "queryFilterEventByAccount rpc acount evName fromBlock toBlock =
     Inr (map the (filter (\<lambda>event. event \<noteq> None) (map (decodeLog rpc evName) evs)))"
  using assms by (simp add: queryFilterEventByAccount_def await_Inr)

lemma decodeLog_queryFilter_update:
  "decodeLog (rpc\<lparr>queryFilter := q\<rparr>) evName = decodeLog rpc evName"
  by (rule ext) (simp add: decodeLog_def)

text \<open>The events returned are the decodings of the entries that decode, in the order
  of the batch.\<close>

lemma decodeLog_decodes_to:
  assumes "\<not> decode_fails rpc lg"
  shows "\<exists>e. decodeLog rpc evName lg = Some e \<and> decodes_to rpc evName lg e"
proof -
  obtain args where p: "parseLog rpc lg = Inr (Some args)" and f: "fits_width (args_amount args)"
    using assms by (auto simp: decode_fails_def split: sum.splits option.splits)
  have d: "decodeLog rpc evName lg = Some (event_of evName args)" using p f by (rule decodeLog_ok)
  have r: "parseUnits (toString (args_amount args) 18) 18 = Inr (args_amount args)"
    using f by (rule parseUnits_toString) simp
  have "decodes_to rpc evName lg (event_of evName args)"
    by (simp add: decodes_to_def p event_of_def r)
  with d show ?thesis by blast
qed

lemma decoded_in_order:
  "list_all2 (decodes_to rpc evName) (filter (\<lambda>lg. \<not> decode_fails rpc lg) evs)
     (map the (filter (\<lambda>event. event \<noteq> None) (map (decodeLog rpc evName) evs)))"
proof (induction evs)
  case Nil
  show ?case by simp
next
  case (Cons lg evs)
  show ?case
  proof (cases "decode_fails rpc lg")
    case True
    then have "decodeLog rpc evName lg = None" by (rule decodeLog_fails)
    then show ?thesis using True Cons by simp
  next
    case False
    from decodeLog_decodes_to [OF False, of evName]
    obtain e where "decodeLog rpc evName lg = Some e" "decodes_to rpc evName lg e"
      by blast
    then show ?thesis using False Cons by simp
  qed
qed

lemma hook_step_changes:
  "hook_step st x = Some st' \<Longrightarrow> healthFactor st' \<noteq> healthFactor st \<Longrightarrow>
   \<exists>factor. x = Settled (Inr factor) \<and> healthFactor st' = Some factor \<and> 0 < in_flight st"
  by (cases x) (auto split: if_splits sum.splits)

lemma hook_step_in_flight:
  "hook_step st x = Some st' \<Longrightarrow>
   in_flight st' \<le> in_flight st + (if starts_read x then 1 else 0)"
  by (cases x) (auto simp: starts_read_def split: if_splits sum.splits)

lemma hook_run_in_flight:
  "hook_run st xs = Some st' \<Longrightarrow> in_flight st' \<le> in_flight st + length (filter starts_read xs)"
proof (induction xs arbitrary: st)
  case Nil
  then show ?case by simp
next
  case (Cons x xs)
  then obtain st1 where s: "hook_step st x = Some st1" and r: "hook_run st1 xs = Some st'"
    by (auto split: option.splits)
  have "in_flight st' \<le> in_flight st1 + length (filter starts_read xs)"
    using r by (rule Cons.IH)
  moreover have "in_flight st1 \<le> in_flight st + (if starts_read x then 1 else 0)"
    using s by (rule hook_step_in_flight)
  ultimately show ?case by (auto split: if_splits)
qed

lemma hook_run_first_publication:
  "hook_run st xs = Some st' \<Longrightarrow> healthFactor st = None \<Longrightarrow> healthFactor st' \<noteq> None \<Longrightarrow>
   \<exists>pre factor post mid. xs = pre @ Settled (Inr factor) # post \<and>
      hook_run st pre = Some mid \<and> 0 < in_flight mid"
proof (induction xs arbitrary: st)
  case Nil
  then show ?case by simp
next
  case (Cons x xs)
  then obtain st1 where s: "hook_step st x = Some st1" and r: "hook_run st1 xs = Some st'"
    by (auto split: option.splits)
  show ?case
  proof (cases "healthFactor st1 = None")
    case True
    then obtain pre factor post mid where p: "xs = pre @ Settled (Inr factor) # post"
        "hook_run st1 pre = Some mid" "0 < in_flight mid"
      using Cons.IH [OF r] Cons.prems(3) by blast
    have "x # xs = (x # pre) @ Settled (Inr factor) # post" using p(1) by simp
    moreover have "hook_run st (x # pre) = Some mid" using s p(2) by simp
    ultimately show ?thesis using p(3) by blast
  next
    case False
    then have "healthFactor st1 \<noteq> healthFactor st" using Cons.prems(2) by simp
    then obtain factor where f: "x = Settled (Inr factor)" "0 < in_flight st"
      using hook_step_changes [OF s] by blast
    have "x # xs = [] @ Settled (Inr factor) # xs" using f(1) by simp
    moreover have "hook_run st [] = Some st" by simp
    ultimately show ?thesis using f(2) by blast
  qed
qed

lemma starts_read_Effect:
  "starts_read x \<Longrightarrow> \<exists>h a. x = Effect (Some h) (Some a) \<and> a \<noteq> []"
  by (cases x) (auto simp: starts_read_def falsy_def split: option.splits)

lemma hook_step_issued:
  "hook_step st x = Some st' \<Longrightarrow>
   issued st' = issued st @ map effect_account (filter starts_read [x])"
  by (cases x)
     (auto simp: starts_read_def effect_account_def falsy_def split: if_splits sum.splits option.splits)

lemma hook_step_keeps:
  "hook_step st x = Some st' \<Longrightarrow> healthFactor st \<noteq> None \<Longrightarrow> healthFactor st' \<noteq> None"
  by (cases x) (auto split: if_splits sum.splits)

lemma hook_run_keeps:
  "hook_run st xs = Some st' \<Longrightarrow> healthFactor st \<noteq> None \<Longrightarrow> healthFactor st' \<noteq> None"
proof (induction xs arbitrary: st)
  case Nil
  then show ?case by simp
next
  case (Cons x xs)
  then obtain st1 where s: "hook_step st x = Some st1" and r: "hook_run st1 xs = Some st'"
    by (auto split: option.splits)
  have "healthFactor st1 \<noteq> None" using s Cons.prems(2) by (rule hook_step_keeps)
  with r show ?case by (rule Cons.IH)
qed

lemma hook_run_stays_null:
  "hook_run st xs = Some st' \<Longrightarrow> healthFactor st = None \<Longrightarrow>
   \<forall>factor. Settled (Inr factor) \<notin> set xs \<Longrightarrow> healthFactor st' = None"
proof (induction xs arbitrary: st)
  case Nil
  then show ?case by simp
next
  case (Cons x xs)
  then obtain st1 where s: "hook_step st x = Some st1" and r: "hook_run st1 xs = Some st'"
    by (auto split: option.splits)
  have "healthFactor st1 = None"
  proof (rule ccontr)
    assume "healthFactor st1 \<noteq> None"
    then have "healthFactor st1 \<noteq> healthFactor st" using Cons.prems(2) by simp
    then obtain factor where "x = Settled (Inr factor)"
      using hook_step_changes [OF s] by blast
    then have "Settled (Inr factor) \<in> set (x # xs)" by simp
    then show False using Cons.prems(3) by blast
  qed
  moreover have "\<forall>factor. Settled (Inr factor) \<notin> set xs" using Cons.prems(3) by simp
  ultimately show ?case using r Cons.IH by blast
qed

section \<open>The claims\<close>

subsection \<open>C1: the round trip of a decimal amount\<close>




subsection \<open>C2: an entry of the log that does not decode\<close>

text \<open>
  C2: when one entry of the batch that \<^verbatim>\<open>queryFilterEventByAccount\<close> retrieves fails
  to decode, that entry is dropped and every other entry is still decoded and returned.
  For a batch of three entries of which the second fails, the result is exactly the
  decoded first and third events, in the order of the log. For any batch, the method
  resolves, and the events it returns are, one for one and in the order of the log, the
  decodings of the entries that decode: none is lost, none is added, whatever the number
  of entries that fail and wherever they stand. And for any batch, the result is the one
  the batch without a failing entry would give.
\<close>

theorem queryFilterEventByAccount_drops_undecodable:
  assumes flt: "filters rpc evName acount = Inr flt"
  shows
  "(\<forall>l1 l2 l3 a1 a3.
      queryFilter rpc flt fromBlock (case toBlock of None \<Rightarrow> BlockName ''latest'' | Some b \<Rightarrow> b)
        = Inr [l1, l2, l3] \<longrightarrow>
      parseLog rpc l1 = Inr (Some a1) \<longrightarrow> fits_width (args_amount a1) \<longrightarrow>
      decode_fails rpc l2 \<longrightarrow>
      parseLog rpc l3 = Inr (Some a3) \<longrightarrow> fits_width (args_amount a3) \<longrightarrow>
      queryFilterEventByAccount rpc acount evName fromBlock toBlock =
        Inr [\<lparr>ev_user = args_user a1, ev_token = args_token a1,
              ev_amount = toString (args_amount a1) 18,
              ev_timeStamp = times (Number_of_bigint (args_timeStamp a1)) (Num 1000),
              ev_eventName = evName\<rparr>,
             \<lparr>ev_user = args_user a3, ev_token = args_token a3,
              ev_amount = toString (args_amount a3) 18,
              ev_timeStamp = times (Number_of_bigint (args_timeStamp a3)) (Num 1000),
              ev_eventName = evName\<rparr>]) \<and>
   (\<forall>evs.
      queryFilter rpc flt fromBlock (case toBlock of None \<Rightarrow> BlockName ''latest'' | Some b \<Rightarrow> b)
        = Inr evs \<longrightarrow>
      (\<exists>es. queryFilterEventByAccount rpc acount evName fromBlock toBlock = Inr es \<and>
            list_all2 (decodes_to rpc evName) (filter (\<lambda>lg. \<not> decode_fails rpc lg) evs) es)) \<and>
   (\<forall>xs l ys.
      queryFilter rpc flt fromBlock (case toBlock of None \<Rightarrow> BlockName ''latest'' | Some b \<Rightarrow> b)
        = Inr (xs @ l # ys) \<longrightarrow>
      decode_fails rpc l \<longrightarrow>
      queryFilterEventByAccount rpc acount evName fromBlock toBlock =
        queryFilterEventByAccount (rpc\<lparr>queryFilter := \<lambda>f b t. Inr (xs @ ys)\<rparr>)
          acount evName fromBlock toBlock)"
proof (intro conjI allI impI)
  fix l1 l2 l3 a1 a3
  assume q: "queryFilter rpc flt fromBlock (case toBlock of None \<Rightarrow> BlockName ''latest'' | Some b \<Rightarrow> b)
        = Inr [l1, l2, l3]"
    and 1: "parseLog rpc l1 = Inr (Some a1)" "fits_width (args_amount a1)"
    and 2: "decode_fails rpc l2"
    and 3: "parseLog rpc l3 = Inr (Some a3)" "fits_width (args_amount a3)"
  have d1: "decodeLog rpc evName l1 = Some (event_of evName a1)" using 1 by (rule decodeLog_ok)
  have d2: "decodeLog rpc evName l2 = None" using 2 by (rule decodeLog_fails)
  have d3: "decodeLog rpc evName l3 = Some (event_of evName a3)" using 3 by (rule decodeLog_ok)
  show "queryFilterEventByAccount rpc acount evName fromBlock toBlock =
        Inr [\<lparr>ev_user = args_user a1, ev_token = args_token a1,
              ev_amount = toString (args_amount a1) 18,
              ev_timeStamp = times (Number_of_bigint (args_timeStamp a1)) (Num 1000),
              ev_eventName = evName\<rparr>,
             \<lparr>ev_user = args_user a3, ev_token = args_token a3,
              ev_amount = toString (args_amount a3) 18,
              ev_timeStamp = times (Number_of_bigint (args_timeStamp a3)) (Num 1000),
              ev_eventName = evName\<rparr>]"
    unfolding queryFilterEventByAccount_batch [OF flt q]
    by (simp add: d1 d2 d3 event_of_def)
next
  fix evs
  assume q: "queryFilter rpc flt fromBlock (case toBlock of None \<Rightarrow> BlockName ''latest'' | Some b \<Rightarrow> b)
        = Inr evs"
  show "\<exists>es. queryFilterEventByAccount rpc acount evName fromBlock toBlock = Inr es \<and>
            list_all2 (decodes_to rpc evName) (filter (\<lambda>lg. \<not> decode_fails rpc lg) evs) es"
    unfolding queryFilterEventByAccount_batch [OF flt q]
    using decoded_in_order [of rpc evName evs] by (intro exI conjI) (rule refl)
next
  fix xs l ys
  assume q: "queryFilter rpc flt fromBlock (case toBlock of None \<Rightarrow> BlockName ''latest'' | Some b \<Rightarrow> b)
        = Inr (xs @ l # ys)"
    and f: "decode_fails rpc l"
  have d: "decodeLog rpc evName l = None" using f by (rule decodeLog_fails)
  have flt': "filters (rpc\<lparr>queryFilter := \<lambda>f b t. Inr (xs @ ys)\<rparr>) evName acount = Inr flt"
    using flt by simp
  have q': "queryFilter (rpc\<lparr>queryFilter := \<lambda>f b t. Inr (xs @ ys)\<rparr>) flt fromBlock
      (case toBlock of None \<Rightarrow> BlockName ''latest'' | Some b \<Rightarrow> b) = Inr (xs @ ys)"
    by simp
  show "queryFilterEventByAccount rpc acount evName fromBlock toBlock =
        queryFilterEventByAccount (rpc\<lparr>queryFilter := \<lambda>f b t. Inr (xs @ ys)\<rparr>)
          acount evName fromBlock toBlock"
    unfolding queryFilterEventByAccount_batch [OF flt q]
      queryFilterEventByAccount_batch [OF flt' q']
    by (simp add: d decodeLog_queryFilter_update)
qed

theorem queryFilterEventByAccount_drops_undecodable_witness:
  "queryFilterEventByAccount mock_rpc ''0xA1'' ''CollateralDeposited'' (Num 0) None =
     Inr [\<lparr>ev_user = ''0xA1'', ev_token = ''0xT1'', ev_amount = ''5.0'',
           ev_timeStamp = Num 1700000000000, ev_eventName = ''CollateralDeposited''\<rparr>,
          \<lparr>ev_user = ''0xA1'', ev_token = ''0xT1'', ev_amount = ''2.5'',
           ev_timeStamp = Num 1700000600000, ev_eventName = ''CollateralDeposited''\<rparr>] \<and>
   queryFilterEventByAccount (mock_rpc\<lparr>queryFilter := \<lambda>f b t. Inr [13, 12, 15, 11, 13]\<rparr>)
       ''0xA1'' ''CollateralDeposited'' (Num 0) None =
     Inr [\<lparr>ev_user = ''0xA1'', ev_token = ''0xT1'', ev_amount = ''2.5'',
           ev_timeStamp = Num 1700000600000, ev_eventName = ''CollateralDeposited''\<rparr>,
          \<lparr>ev_user = ''0xA1'', ev_token = ''0xT1'', ev_amount = ''5.0'',
           ev_timeStamp = Num 1700000000000, ev_eventName = ''CollateralDeposited''\<rparr>,
          \<lparr>ev_user = ''0xA1'', ev_token = ''0xT1'', ev_amount = ''2.5'',
           ev_timeStamp = Num 1700000600000, ev_eventName = ''CollateralDeposited''\<rparr>]"
proof -
  have flt: "filters mock_rpc ''CollateralDeposited'' ''0xA1'' = Inr 0"
    by (simp add: mock_rpc_def)
  have q: "queryFilter mock_rpc 0 (Num 0) (case None of None \<Rightarrow> BlockName ''latest'' | Some b \<Rightarrow> b)
      = Inr [11, 12, 13]"
    by (simp add: mock_rpc_def)
  have 1: "parseLog mock_rpc 11 = Inr (Some (mock_args 5000000000000000000 1700000000))"
    by (simp add: mock_rpc_def)
  have 2: "decode_fails mock_rpc 12"
    by (simp add: decode_fails_def mock_rpc_def)
  have 3: "parseLog mock_rpc 13 = Inr (Some (mock_args 2500000000000000000 1700000600))"
    by (simp add: mock_rpc_def)
  have f1: "fits_width (args_amount (mock_args 5000000000000000000 1700000000))"
    by (simp add: mock_args_def fits_width_def)
  have f3: "fits_width (args_amount (mock_args 2500000000000000000 1700000600))"
    by (simp add: mock_args_def fits_width_def)
  have t1: "times (Number_of_bigint 1700000000) (Num 1000) = Num 1700000000000"
    by (simp add: Number_of_bigint_def round_double_exact)
  have t3: "times (Number_of_bigint 1700000600) (Num 1000) = Num 1700000600000"
    by (simp add: Number_of_bigint_def round_double_exact)
  have a: "queryFilterEventByAccount mock_rpc ''0xA1'' ''CollateralDeposited'' (Num 0) None =
     Inr [\<lparr>ev_user = ''0xA1'', ev_token = ''0xT1'', ev_amount = ''5.0'',
           ev_timeStamp = Num 1700000000000, ev_eventName = ''CollateralDeposited''\<rparr>,
          \<lparr>ev_user = ''0xA1'', ev_token = ''0xT1'', ev_amount = ''2.5'',
           ev_timeStamp = Num 1700000600000, ev_eventName = ''CollateralDeposited''\<rparr>]"
    using queryFilterEventByAccount_drops_undecodable
      [OF flt, of "Num 0" None, THEN conjunct1, rule_format, OF q 1 f1 2 3 f3]
    by (simp add: mock_args_def toString_5 toString_2_5 t1 t3)
  define rpc where "rpc = mock_rpc\<lparr>queryFilter := \<lambda>f b t. Inr [13, 12, 15, 11, 13]\<rparr>"
  have flt': "filters rpc ''CollateralDeposited'' ''0xA1'' = Inr 0"
    by (simp add: rpc_def mock_rpc_def)
  have q': "queryFilter rpc 0 (Num 0) (case None of None \<Rightarrow> BlockName ''latest'' | Some b \<Rightarrow> b)
      = Inr [13, 12, 15, 11, 13]"
    by (simp add: rpc_def)
  have p11: "parseLog rpc 11 = Inr (Some (mock_args 5000000000000000000 1700000000))"
    by (simp add: rpc_def mock_rpc_def)
  have p12: "parseLog rpc 12 = Inl (OtherError ''data out-of-bounds'')"
    by (simp add: rpc_def mock_rpc_def)
  have p13: "parseLog rpc 13 = Inr (Some (mock_args 2500000000000000000 1700000600))"
    by (simp add: rpc_def mock_rpc_def)
  have p15: "parseLog rpc 15 = Inr None"
    by (simp add: rpc_def mock_rpc_def)
  have kept: "filter (\<lambda>lg. \<not> decode_fails rpc lg) [13, 12, 15, 11, 13] = [13, 11, 13]"
    using f1 f3 by (simp add: decode_fails_def p11 p12 p13 p15)
  have e11: "e = \<lparr>ev_user = ''0xA1'', ev_token = ''0xT1'', ev_amount = ''5.0'',
           ev_timeStamp = Num 1700000000000, ev_eventName = ''CollateralDeposited''\<rparr>"
    if "decodes_to rpc ''CollateralDeposited'' 11 e" for e
    using that by (cases e) (simp add: decodes_to_def p11 mock_args_def toString_5 t1)
  have e13: "e = \<lparr>ev_user = ''0xA1'', ev_token = ''0xT1'', ev_amount = ''2.5'',
           ev_timeStamp = Num 1700000600000, ev_eventName = ''CollateralDeposited''\<rparr>"
    if "decodes_to rpc ''CollateralDeposited'' 13 e" for e
    using that by (cases e) (simp add: decodes_to_def p13 mock_args_def toString_2_5 t3)
  obtain es where es: "queryFilterEventByAccount rpc ''0xA1'' ''CollateralDeposited'' (Num 0) None = Inr es"
      "list_all2 (decodes_to rpc ''CollateralDeposited'') [13, 11, 13] es"
    using queryFilterEventByAccount_drops_undecodable
      [OF flt', of "Num 0" None, THEN conjunct2, THEN conjunct1, rule_format, OF q']
    unfolding kept by blast
  obtain x y z where xyz: "es = [x, y, z]" "decodes_to rpc ''CollateralDeposited'' 13 x"
      "decodes_to rpc ''CollateralDeposited'' 11 y" "decodes_to rpc ''CollateralDeposited'' 13 z"
    using es(2) by (auto simp: list_all2_Cons1)
  have b: "queryFilterEventByAccount rpc ''0xA1'' ''CollateralDeposited'' (Num 0) None =
     Inr [\<lparr>ev_user = ''0xA1'', ev_token = ''0xT1'', ev_amount = ''2.5'',
           ev_timeStamp = Num 1700000600000, ev_eventName = ''CollateralDeposited''\<rparr>,
          \<lparr>ev_user = ''0xA1'', ev_token = ''0xT1'', ev_amount = ''5.0'',
           ev_timeStamp = Num 1700000000000, ev_eventName = ''CollateralDeposited''\<rparr>,
          \<lparr>ev_user = ''0xA1'', ev_token = ''0xT1'', ev_amount = ''2.5'',
           ev_timeStamp = Num 1700000600000, ev_eventName = ''CollateralDeposited''\<rparr>]"
    unfolding es(1) xyz(1) using e13 [OF xyz(2)] e11 [OF xyz(3)] e13 [OF xyz(4)] by simp
  show ?thesis using a b unfolding rpc_def by (rule conjI)
qed

subsection \<open>C3: the health factor is never a rejection\<close>

text \<open>
  C3: for every user and every behaviour of the underlying read, \<^verbatim>\<open>userHealthFactor\<close>
  resolves: with the fixed-point result rescaled to a decimal string when the read
  succeeds (a string that scales back to the same integer), and with the sentinel
  \<^verbatim>\<open>"0"\<close> on any failure, of the read or of the rescaling (a value outside the
  512-bit width, which no Solidity integer is).
\<close>

theorem userHealthFactor_never_rejects:
  "(\<exists>s. userHealthFactor c user = Inr s) \<and>
   (\<forall>v. c_userHealthFactor c user = Inr v \<longrightarrow> fits_width v \<longrightarrow>
        userHealthFactor c user = Inr (toString v 18) \<and>
        parseUnits (toString v 18) 18 = Inr v) \<and>
   (\<forall>v. c_userHealthFactor c user = Inr v \<longrightarrow> \<not> fits_width v \<longrightarrow>
        userHealthFactor c user = Inr ''0'') \<and>
   (\<forall>e. c_userHealthFactor c user = Inl e \<longrightarrow> userHealthFactor c user = Inr ''0'')"
  by (cases "c_userHealthFactor c user")
     (simp_all add: userHealthFactor_def await_def formatUnits_def parseUnits_toString)

theorem userHealthFactor_never_rejects_witness:
  "userHealthFactor mock ''0xA1'' = Inr ''1.5'' \<and>
   userHealthFactor (mock\<lparr>c_userHealthFactor := \<lambda>u. Inl (CallException ''revert'')\<rparr>) ''0xA1'' = Inr ''0''"
proof -
  have ok: "c_userHealthFactor mock ''0xA1'' = Inr 1500000000000000000"
    by (simp add: mock_def)
  have fits: "fits_width 1500000000000000000"
    by (simp add: fits_width_def)
  have bad: "c_userHealthFactor (mock\<lparr>c_userHealthFactor := \<lambda>u. Inl (CallException ''revert'')\<rparr>) ''0xA1''
      = Inl (CallException ''revert'')"
    by simp
  have a: "userHealthFactor mock ''0xA1'' = Inr (toString 1500000000000000000 18)"
    using userHealthFactor_never_rejects [of mock "''0xA1''", THEN conjunct2, THEN conjunct1,
        rule_format, OF ok fits, THEN conjunct1] .
  have b: "userHealthFactor (mock\<lparr>c_userHealthFactor := \<lambda>u. Inl (CallException ''revert'')\<rparr>) ''0xA1'' = Inr ''0''"
    using userHealthFactor_never_rejects
      [of "mock\<lparr>c_userHealthFactor := \<lambda>u. Inl (CallException ''revert'')\<rparr>" "''0xA1''",
       THEN conjunct2, THEN conjunct2, THEN conjunct2, rule_format, OF bad] .
  show ?thesis using a b by (simp add: toString_1_5)
qed

subsection \<open>C4: the probe of a broken health factor\<close>

text \<open>
  C4: for every user, \<^verbatim>\<open>checkForBrokenHealthFactor\<close> resolves with \<^verbatim>\<open>true\<close> exactly
  when the underlying probe call resolves, and with \<^verbatim>\<open>false\<close> exactly when that call
  fails, for any reason; it never rejects.
\<close>

theorem checkForBrokenHealthFactor_probe:
  "(\<exists>b. checkForBrokenHealthFactor c user = Inr b) \<and>
   (checkForBrokenHealthFactor c user = Inr True \<longleftrightarrow>
      (\<exists>r. c_checkForBrokenHealthFactor c user = Inr r)) \<and>
   (checkForBrokenHealthFactor c user = Inr False \<longleftrightarrow>
      (\<exists>e. c_checkForBrokenHealthFactor c user = Inl e))"
  by (cases "c_checkForBrokenHealthFactor c user") (auto simp: checkForBrokenHealthFactor_def)

theorem checkForBrokenHealthFactor_probe_witness:
  "checkForBrokenHealthFactor mock ''0xA1'' = Inr True \<and>
   checkForBrokenHealthFactor
     (mock\<lparr>c_checkForBrokenHealthFactor := \<lambda>u. Inl (CallException ''health factor ok'')\<rparr>) ''0xA1''
     = Inr False"
proof -
  have "\<exists>r. c_checkForBrokenHealthFactor mock ''0xA1'' = Inr r"
    by (simp add: mock_def)
  then have a: "checkForBrokenHealthFactor mock ''0xA1'' = Inr True"
    using checkForBrokenHealthFactor_probe [of mock "''0xA1''"] by blast
  have "\<exists>e. c_checkForBrokenHealthFactor
      (mock\<lparr>c_checkForBrokenHealthFactor := \<lambda>u. Inl (CallException ''health factor ok'')\<rparr>) ''0xA1''
      = Inl e"
    by simp
  then have b: "checkForBrokenHealthFactor
     (mock\<lparr>c_checkForBrokenHealthFactor := \<lambda>u. Inl (CallException ''health factor ok'')\<rparr>) ''0xA1''
     = Inr False"
    using checkForBrokenHealthFactor_probe
      [of "mock\<lparr>c_checkForBrokenHealthFactor := \<lambda>u. Inl (CallException ''health factor ok'')\<rparr>"
          "''0xA1''"]
    by blast
  show ?thesis using a b by simp
qed

subsection \<open>C5: an amount with more than 18 fractional digits\<close>

text \<open>
  C5 states that an amount with more than 18 fractional digits is truncated by the
  scaling, and the call proceeds with the truncated value. \<open>parseUnits\<close> checks the
  digits past the 18th instead: with \<^verbatim>\<open>"1.0000000000000000019"\<close> it throws, and
  \<^verbatim>\<open>depositCollateral\<close> rejects without calling the contract. As amended: for an
  amount of an optional minus sign, digits, a point and more than 18 digits, if a digit
  past the 18th is not zero then \<open>parseUnits\<close> fails with the numeric fault
  \<^verbatim>\<open>too many decimals for format\<close> and every method that takes the amount rejects with
  that fault whatever the contract would answer; if all digits past the 18th are zero
  they are dropped, and every such method does what it does on the amount cut to 18
  fractional digits. No digit that is not zero is ever cut or rounded.
\<close>

theorem amount_past_18_digits:
  assumes "list_all is_digit w" "list_all is_digit f" "18 < length f"
    and "neg = [] \<or> neg = ''-''"
    and "amount = neg @ w @ ''.'' @ f"
  shows
  "(\<not> list_all (\<lambda>c. c = CHR ''0'') (drop 18 f) \<longrightarrow>
      parseUnits amount 18 = Inl (NumericFault ''too many decimals for format'') \<and>
      getAssetValueInUSD c token amount = Inl (NumericFault ''too many decimals for format'') \<and>
      depositCollateral c token amount = Inl (NumericFault ''too many decimals for format'') \<and>
      borrowAsset c token amount ts = Inl (NumericFault ''too many decimals for format'') \<and>
      repayLoan c token amount = Inl (NumericFault ''too many decimals for format'') \<and>
      liquidatePosition c who token collateral amount
        = Inl (NumericFault ''too many decimals for format'') \<and>
      addLiquidity c token amount ts = Inl (NumericFault ''too many decimals for format'') \<and>
      rebalancePortfolio c token swapTo amount
        = Inl (NumericFault ''too many decimals for format'')) \<and>
   (list_all (\<lambda>c. c = CHR ''0'') (drop 18 f) \<longrightarrow>
      parseUnits amount 18 = parseUnits (neg @ w @ ''.'' @ take 18 f) 18 \<and>
      getAssetValueInUSD c token amount
        = getAssetValueInUSD c token (neg @ w @ ''.'' @ take 18 f) \<and>
      depositCollateral c token amount = depositCollateral c token (neg @ w @ ''.'' @ take 18 f) \<and>
      borrowAsset c token amount ts = borrowAsset c token (neg @ w @ ''.'' @ take 18 f) ts \<and>
      repayLoan c token amount = repayLoan c token (neg @ w @ ''.'' @ take 18 f) \<and>
      liquidatePosition c who token collateral amount
        = liquidatePosition c who token collateral (neg @ w @ ''.'' @ take 18 f) \<and>
      addLiquidity c token amount ts = addLiquidity c token (neg @ w @ ''.'' @ take 18 f) ts \<and>
      rebalancePortfolio c token swapTo amount
        = rebalancePortfolio c token swapTo (neg @ w @ ''.'' @ take 18 f))"
proof (intro conjI impI)
  assume nz: "\<not> list_all (\<lambda>c. c = CHR ''0'') (drop 18 f)"
  have "parseUnits (neg @ w @ CHR ''.'' # f) 18 = Inl (NumericFault ''too many decimals for format'')"
    using assms(1,2,3,4) nz by (rule parseUnits_long_fault)
  then have p: "parseUnits amount 18 = Inl (NumericFault ''too many decimals for format'')"
    by (simp add: assms(5))
  show "parseUnits amount 18 = Inl (NumericFault ''too many decimals for format'')"
    by (rule p)
  show "getAssetValueInUSD c token amount = Inl (NumericFault ''too many decimals for format'')"
    using p by (rule amount_fault)
  show "depositCollateral c token amount = Inl (NumericFault ''too many decimals for format'')"
    using p by (rule amount_fault)
  show "borrowAsset c token amount ts = Inl (NumericFault ''too many decimals for format'')"
    using p by (rule amount_fault)
  show "repayLoan c token amount = Inl (NumericFault ''too many decimals for format'')"
    using p by (rule amount_fault)
  show "liquidatePosition c who token collateral amount
        = Inl (NumericFault ''too many decimals for format'')"
    using p by (rule amount_fault)
  show "addLiquidity c token amount ts = Inl (NumericFault ''too many decimals for format'')"
    using p by (rule amount_fault)
  show "rebalancePortfolio c token swapTo amount
        = Inl (NumericFault ''too many decimals for format'')"
    using p by (rule amount_fault)
next
  assume z: "list_all (\<lambda>c. c = CHR ''0'') (drop 18 f)"
  have "parseUnits (neg @ w @ CHR ''.'' # f) 18 = parseUnits (neg @ w @ CHR ''.'' # take 18 f) 18"
  proof (rule parseUnits_long_zeros)
    show "(0::nat) < 18" by simp
  qed (use assms(1,2,3,4) z in simp_all)
  then have p: "parseUnits amount 18 = parseUnits (neg @ w @ ''.'' @ take 18 f) 18"
    by (simp add: assms(5))
  show "parseUnits amount 18 = parseUnits (neg @ w @ ''.'' @ take 18 f) 18"
    by (rule p)
  show "getAssetValueInUSD c token amount
        = getAssetValueInUSD c token (neg @ w @ ''.'' @ take 18 f)"
    using p by (rule amount_through_parseUnits)
  show "depositCollateral c token amount = depositCollateral c token (neg @ w @ ''.'' @ take 18 f)"
    using p by (rule amount_through_parseUnits)
  show "borrowAsset c token amount ts = borrowAsset c token (neg @ w @ ''.'' @ take 18 f) ts"
    using p by (rule amount_through_parseUnits)
  show "repayLoan c token amount = repayLoan c token (neg @ w @ ''.'' @ take 18 f)"
    using p by (rule amount_through_parseUnits)
  show "liquidatePosition c who token collateral amount
        = liquidatePosition c who token collateral (neg @ w @ ''.'' @ take 18 f)"
    using p by (rule amount_through_parseUnits)
  show "addLiquidity c token amount ts = addLiquidity c token (neg @ w @ ''.'' @ take 18 f) ts"
    using p by (rule amount_through_parseUnits)
  show "rebalancePortfolio c token swapTo amount
        = rebalancePortfolio c token swapTo (neg @ w @ ''.'' @ take 18 f)"
    using p by (rule amount_through_parseUnits)
qed

theorem amount_past_18_digits_witness:
  "repayLoan mock ''0xT1'' ''2.0000000000000000007''
     = Inl (NumericFault ''too many decimals for format'') \<and>
   repayLoan mock ''0xT1'' ''2.5000000000000000000'' = repayLoan mock ''0xT1'' ''2.500000000000000000''"
proof -
  have a: "repayLoan mock ''0xT1'' ''2.0000000000000000007''
     = Inl (NumericFault ''too many decimals for format'')"
    using amount_past_18_digits [of "''2''" "''0000000000000000007''" "[]"
        "''2.0000000000000000007''" mock "''0xT1''"]
    by (simp add: is_digit_def)
  have b: "repayLoan mock ''0xT1'' ''2.5000000000000000000''
      = repayLoan mock ''0xT1'' ''2.500000000000000000''"
    using amount_past_18_digits [of "''2''" "''5000000000000000000''" "[]"
        "''2.5000000000000000000''" mock "''0xT1''"]
    by (simp add: is_digit_def)
  show ?thesis using a b by simp
qed

theorem amount_past_18_digits_counterexample:
  "depositCollateral mock ''0xT1'' ''1.0000000000000000019''
     = Inl (NumericFault ''too many decimals for format'') \<and>
   depositCollateral mock ''0xT1'' ''1.5000000000000000000'' = Inr ()"
  by (simp add: depositCollateral_def await_Inr await_Inl parseUnits_19_digits
      parseUnits_19_digits_zero mock_def mock_tx_def)

subsection \<open>C6: when the hook reads and when it publishes\<close>

text \<open>
  C6: the hook issues no read while the contract handle or the account is absent, and
  leaves the published value as it was; with both present it issues one read; a read
  that fails leaves the published value as it was; and the published value changes
  only when a read settles with a result, which can only follow an effect that ran with
  both dependencies present.
\<close>

theorem hook_publishes_only_after_read:
  fixes contract :: "'h option"
  shows
  "(contract = None \<or> falsy account \<longrightarrow>
      (\<exists>st'. hook_step st (Effect contract account) = Some st' \<and> issued st' = issued st \<and>
         in_flight st' = in_flight st \<and> healthFactor st' = healthFactor st)) \<and>
   (\<forall>(h :: 'h) a. a \<noteq> [] \<longrightarrow>
      (\<exists>st'. hook_step st (Effect (Some h) (Some a)) = Some st' \<and> issued st' = issued st @ [a] \<and>
         in_flight st' = Suc (in_flight st) \<and> healthFactor st' = healthFactor st)) \<and>
   (\<forall>e st'. hook_step st (Settled (Inl e) :: 'h step) = Some st' \<longrightarrow>
      healthFactor st' = healthFactor st) \<and>
   (\<forall>(x :: 'h step) st'. hook_step st x = Some st' \<longrightarrow> healthFactor st' \<noteq> healthFactor st \<longrightarrow>
      (\<exists>factor. x = Settled (Inr factor) \<and> healthFactor st' = Some factor \<and> 0 < in_flight st)) \<and>
   (\<forall>(xs :: 'h step list) st'. hook_run useState_initial xs = Some st' \<longrightarrow>
      healthFactor st' \<noteq> None \<longrightarrow>
      (\<exists>pre factor post h a. xs = pre @ Settled (Inr factor) # post \<and>
         Effect (Some h) (Some a) \<in> set pre \<and> a \<noteq> []))"
proof (intro conjI allI impI)
  assume "contract = None \<or> falsy account"
  then show "\<exists>st'. hook_step st (Effect contract account) = Some st' \<and> issued st' = issued st \<and>
         in_flight st' = in_flight st \<and> healthFactor st' = healthFactor st"
    by auto
next
  fix h :: 'h and a :: string
  assume "a \<noteq> []"
  then show "\<exists>st'. hook_step st (Effect (Some h) (Some a)) = Some st' \<and> issued st' = issued st @ [a] \<and>
         in_flight st' = Suc (in_flight st) \<and> healthFactor st' = healthFactor st"
    by (simp add: falsy_def)
next
  fix e st'
  assume "hook_step st (Settled (Inl e) :: 'h step) = Some st'"
  then show "healthFactor st' = healthFactor st"
    by (auto split: if_splits)
next
  fix x :: "'h step" and st'
  assume "hook_step st x = Some st'" "healthFactor st' \<noteq> healthFactor st"
  then show "\<exists>factor. x = Settled (Inr factor) \<and> healthFactor st' = Some factor \<and> 0 < in_flight st"
    by (rule hook_step_changes)
next
  fix xs :: "'h step list" and st'
  assume r: "hook_run useState_initial xs = Some st'" and p: "healthFactor st' \<noteq> None"
  have "healthFactor useState_initial = None" by (simp add: useState_initial_def)
  then obtain pre factor post mid where x: "xs = pre @ Settled (Inr factor) # post"
      "hook_run useState_initial pre = Some mid" "0 < in_flight mid"
    using hook_run_first_publication [OF r _ p] by blast
  have "in_flight mid \<le> in_flight useState_initial + length (filter starts_read pre)"
    using x(2) by (rule hook_run_in_flight)
  then have "filter starts_read pre \<noteq> []" using x(3) by (auto simp: useState_initial_def)
  then obtain y where y: "y \<in> set pre" "starts_read y"
    by (metis filter_False)
  then obtain h a where "y = Effect (Some h) (Some a)" "a \<noteq> []"
    using starts_read_Effect by blast
  then show "\<exists>pre factor post h a. xs = pre @ Settled (Inr factor) # post \<and>
         Effect (Some h) (Some a) \<in> set pre \<and> a \<noteq> []"
    using x(1) y(1) by blast
qed

theorem hook_publishes_only_after_read_witness:
  "hook_run useState_initial
     [Effect None (Some ''0xA1''), Effect (Some (7::nat)) None, Effect (Some 7) (Some ''0xA1''),
      Settled (Inl (NetworkError ''timeout'')), Effect (Some 7) (Some ''0xB2''),
      Settled (Inr ''1.5'')]
   = Some \<lparr>healthFactor = Some ''1.5'', issued = [''0xA1'', ''0xB2''], in_flight = 0,
           console = [''useHealthFactor: Esperando valores correctos...'',
                      ''useHealthFactor: Esperando valores correctos...'',
                      ''useHealthFactor: Ejecutando consulta...'',
                      ''Error fetching health factor:'',
                      ''useHealthFactor: Ejecutando consulta...'']\<rparr> \<and>
   (\<exists>pre factor post h a.
      [Effect None (Some ''0xA1''), Effect (Some (7::nat)) None, Effect (Some 7) (Some ''0xA1''),
       Settled (Inl (NetworkError ''timeout'')), Effect (Some 7) (Some ''0xB2''),
       Settled (Inr ''1.5'')] = pre @ Settled (Inr factor) # post \<and>
      Effect (Some h) (Some a) \<in> set pre \<and> a \<noteq> [])"
proof -
  let ?xs = "[Effect None (Some ''0xA1''), Effect (Some (7::nat)) None, Effect (Some 7) (Some ''0xA1''),
      Settled (Inl (NetworkError ''timeout'')), Effect (Some 7) (Some ''0xB2''),
      Settled (Inr ''1.5'')]"
  let ?st = "\<lparr>healthFactor = Some ''1.5'', issued = [''0xA1'', ''0xB2''], in_flight = 0,
           console = [''useHealthFactor: Esperando valores correctos...'',
                      ''useHealthFactor: Esperando valores correctos...'',
                      ''useHealthFactor: Ejecutando consulta...'',
                      ''Error fetching health factor:'',
                      ''useHealthFactor: Ejecutando consulta...'']\<rparr>"
  have r: "hook_run useState_initial ?xs = Some ?st"
    by (simp add: useState_initial_def falsy_def)
  have p: "healthFactor ?st \<noteq> None" by simp
  have "\<exists>pre factor post h a. ?xs = pre @ Settled (Inr factor) # post \<and>
         Effect (Some h) (Some a) \<in> set pre \<and> a \<noteq> []"
    using hook_publishes_only_after_read [of "None :: nat option" None useState_initial,
        THEN conjunct2, THEN conjunct2, THEN conjunct2, THEN conjunct2, rule_format, OF r p] .
  then show ?thesis using r by blast
qed

subsection \<open>C7: the liquidity position\<close>

text \<open>
  C7: \<^verbatim>\<open>getLiquidityPool\<close> returns the amount of the position as a decimal string, the
  fixed-point integer rescaled by \<open>10^18\<close>, and \<^verbatim>\<open>withdrawalTime\<close> and \<^verbatim>\<open>addedAt\<close> as
  plain numbers: for the contract result \<open>{amount: 5 * 10^18, withdrawalTime: 1000,
  addedAt: 2000}\<close> it returns \<open>{amount: "5.0", withdrawalTime: 1000, addedAt: 2000}\<close>.
  For any result whose amount fits the width and whose two times are below \<open>2^53\<close> in
  magnitude, it returns the formatted amount and the two times themselves, and the
  amount it returns is a decimal string that scales by \<open>10^18\<close> back to the fixed-point
  integer of the contract. When the read of the contract rejects, the method rejects
  with the same fault.
\<close>

theorem getLiquidityPool_shape:
  "(c_liquidityPool c user token =
      Inr \<lparr>liq_amount = 5 * 10 ^ 18, liq_withdrawalTime = 1000, liq_addedAt = 2000\<rparr> \<longrightarrow>
    getLiquidityPool c user token =
      Inr \<lparr>pool_amount = ''5.0'', pool_withdrawalTime = Num 1000, pool_addedAt = Num 2000\<rparr>) \<and>
   (\<forall>l. c_liquidityPool c user token = Inr l \<longrightarrow> fits_width (liq_amount l) \<longrightarrow>
        \<bar>liq_withdrawalTime l\<bar> < 2 ^ 53 \<longrightarrow> \<bar>liq_addedAt l\<bar> < 2 ^ 53 \<longrightarrow>
        getLiquidityPool c user token =
          Inr \<lparr>pool_amount = toString (liq_amount l) 18,
               pool_withdrawalTime = Num (liq_withdrawalTime l),
               pool_addedAt = Num (liq_addedAt l)\<rparr> \<and>
        (\<exists>p. getLiquidityPool c user token = Inr p \<and>
             parseUnits (pool_amount p) 18 = Inr (liq_amount l))) \<and>
   (\<forall>e. c_liquidityPool c user token = Inl e \<longrightarrow> getLiquidityPool c user token = Inl e)"
proof (intro conjI impI allI)
  assume a: "c_liquidityPool c user token =
      Inr \<lparr>liq_amount = 5 * 10 ^ 18, liq_withdrawalTime = 1000, liq_addedAt = 2000\<rparr>"
  have "getLiquidityPool c user token =
      Inr \<lparr>pool_amount = toString 5000000000000000000 18,
           pool_withdrawalTime = Num 1000, pool_addedAt = Num 2000\<rparr>"
    using getLiquidityPool_general [OF a] by (simp add: fits_width_def)
  then show "getLiquidityPool c user token =
      Inr \<lparr>pool_amount = ''5.0'', pool_withdrawalTime = Num 1000, pool_addedAt = Num 2000\<rparr>"
    by (simp only: toString_5)
next
  fix l
  assume "c_liquidityPool c user token = Inr l" "fits_width (liq_amount l)"
    "\<bar>liq_withdrawalTime l\<bar> < 2 ^ 53" "\<bar>liq_addedAt l\<bar> < 2 ^ 53"
  then show "getLiquidityPool c user token =
      Inr \<lparr>pool_amount = toString (liq_amount l) 18,
           pool_withdrawalTime = Num (liq_withdrawalTime l),
           pool_addedAt = Num (liq_addedAt l)\<rparr>"
    by (rule getLiquidityPool_general)
next
  fix l
  assume a: "c_liquidityPool c user token = Inr l" "fits_width (liq_amount l)"
    "\<bar>liq_withdrawalTime l\<bar> < 2 ^ 53" "\<bar>liq_addedAt l\<bar> < 2 ^ 53"
  have g: "getLiquidityPool c user token =
      Inr \<lparr>pool_amount = toString (liq_amount l) 18,
           pool_withdrawalTime = Num (liq_withdrawalTime l),
           pool_addedAt = Num (liq_addedAt l)\<rparr>"
    using a by (rule getLiquidityPool_general)
  have r: "parseUnits (toString (liq_amount l) 18) 18 = Inr (liq_amount l)"
    using a(2) by (rule parseUnits_toString) simp
  show "\<exists>p. getLiquidityPool c user token = Inr p \<and>
             parseUnits (pool_amount p) 18 = Inr (liq_amount l)"
    unfolding g using r by simp
next
  fix e
  assume "c_liquidityPool c user token = Inl e"
  then show "getLiquidityPool c user token = Inl e" by (rule getLiquidityPool_rejects)
qed

theorem getLiquidityPool_shape_witness:
  "getLiquidityPool mock ''0xA1'' ''0xT1'' =
      Inr \<lparr>pool_amount = ''5.0'', pool_withdrawalTime = Num 1000, pool_addedAt = Num 2000\<rparr> \<and>
   getLiquidityPool (mock\<lparr>c_liquidityPool := \<lambda>user token.
        Inr \<lparr>liq_amount = 2500000000000000000, liq_withdrawalTime = 1700000000,
             liq_addedAt = 1690000000\<rparr>\<rparr>) ''0xA1'' ''0xT1'' =
      Inr \<lparr>pool_amount = ''2.5'', pool_withdrawalTime = Num 1700000000,
           pool_addedAt = Num 1690000000\<rparr> \<and>
   parseUnits ''2.5'' 18 = Inr 2500000000000000000 \<and>
   getLiquidityPool (mock\<lparr>c_liquidityPool := \<lambda>user token. Inl (CallException ''revert'')\<rparr>)
       ''0xA1'' ''0xT1'' = Inl (CallException ''revert'')"
proof -
  have "c_liquidityPool mock ''0xA1'' ''0xT1'' =
      Inr \<lparr>liq_amount = 5 * 10 ^ 18, liq_withdrawalTime = 1000, liq_addedAt = 2000\<rparr>"
    by (simp add: mock_def)
  then have a: "getLiquidityPool mock ''0xA1'' ''0xT1'' =
      Inr \<lparr>pool_amount = ''5.0'', pool_withdrawalTime = Num 1000, pool_addedAt = Num 2000\<rparr>"
    using getLiquidityPool_shape [of mock "''0xA1''" "''0xT1''", THEN conjunct1] by blast
  define c where "c = mock\<lparr>c_liquidityPool := \<lambda>user token.
        Inr \<lparr>liq_amount = 2500000000000000000, liq_withdrawalTime = 1700000000,
             liq_addedAt = 1690000000\<rparr>\<rparr>"
  define l where "l = \<lparr>liq_amount = 2500000000000000000, liq_withdrawalTime = 1700000000,
             liq_addedAt = 1690000000\<rparr>"
  have r: "c_liquidityPool c ''0xA1'' ''0xT1'' = Inr l" by (simp add: c_def l_def)
  have f: "fits_width (liq_amount l)" by (simp add: l_def fits_width_def)
  have w: "\<bar>liq_withdrawalTime l\<bar> < 2 ^ 53" by (simp add: l_def)
  have t: "\<bar>liq_addedAt l\<bar> < 2 ^ 53" by (simp add: l_def)
  note g = getLiquidityPool_shape [of c "''0xA1''" "''0xT1''", THEN conjunct2, THEN conjunct1,
      rule_format, OF r f w t]
  have b: "getLiquidityPool c ''0xA1'' ''0xT1'' =
      Inr \<lparr>pool_amount = ''2.5'', pool_withdrawalTime = Num 1700000000,
           pool_addedAt = Num 1690000000\<rparr>"
    using g [THEN conjunct1] by (simp add: l_def toString_2_5)
  have p: "parseUnits ''2.5'' 18 = Inr 2500000000000000000"
    using g [THEN conjunct2] unfolding b by (simp add: l_def)
  define c' where "c' = mock\<lparr>c_liquidityPool := \<lambda>user token. Inl (CallException ''revert'')\<rparr>"
  have r': "c_liquidityPool c' ''0xA1'' ''0xT1'' = Inl (CallException ''revert'')"
    by (simp add: c'_def)
  have d: "getLiquidityPool c' ''0xA1'' ''0xT1'' = Inl (CallException ''revert'')"
    using getLiquidityPool_shape [of c' "''0xA1''" "''0xT1''", THEN conjunct2, THEN conjunct2,
      rule_format, OF r'] .
  show ?thesis using a b p d unfolding c_def c'_def by (intro conjI)
qed

subsection \<open>C8: the state-changing methods\<close>

text \<open>
  C8: each of the ten state-changing methods submits a transaction and awaits its
  inclusion before it resolves: it rejects with the fault of the submission when that
  fails, rejects with the fault of \<^verbatim>\<open>wait()\<close> when the transaction reverts, and
  resolves with no value once \<^verbatim>\<open>wait()\<close> has resolved. For the six methods that take
  an amount the transaction carries the amount as \<open>parseUnits\<close> scaled it; when
  \<open>parseUnits\<close> throws on the amount, each of the six rejects with that fault, so that
  none of them resolves without a transaction submitted and awaited.
\<close>

theorem state_changing_submits_and_awaits:
  "(\<forall>a. parseUnits amount 18 = Inr a \<longrightarrow>
      submits_and_awaits (c_depositCollateral c token a) (depositCollateral c token amount) \<and>
      submits_and_awaits (c_borrowAsset c token a ts) (borrowAsset c token amount ts) \<and>
      submits_and_awaits (c_repayLoan c token a) (repayLoan c token amount) \<and>
      submits_and_awaits (c_liquidatePosition c who token collateral a)
        (liquidatePosition c who token collateral amount) \<and>
      submits_and_awaits (c_addLiquidity c token a ts) (addLiquidity c token amount ts) \<and>
      submits_and_awaits (c_rebalancePortfolio c token swapTo a)
        (rebalancePortfolio c token swapTo amount)) \<and>
   (\<forall>e. parseUnits amount 18 = Inl e \<longrightarrow>
      depositCollateral c token amount = Inl e \<and>
      borrowAsset c token amount ts = Inl e \<and>
      repayLoan c token amount = Inl e \<and>
      liquidatePosition c who token collateral amount = Inl e \<and>
      addLiquidity c token amount ts = Inl e \<and>
      rebalancePortfolio c token swapTo amount = Inl e) \<and>
   submits_and_awaits (c_withdrawCollateralDeposited c token) (withdrawCollateralDeposited c token) \<and>
   submits_and_awaits (c_withdrawFromLiquidityPool c token) (withdrawFromLiquidityPool c token) \<and>
   submits_and_awaits (c_transferOwnership c newOwner) (transferOwnership c newOwner) \<and>
   submits_and_awaits (c_acceptOwnership c) (acceptOwnership c)"
  by (simp add: depositCollateral_def borrowAsset_def repayLoan_def liquidatePosition_def
      addLiquidity_def rebalancePortfolio_def withdrawCollateralDeposited_def
      withdrawFromLiquidityPool_def transferOwnership_def acceptOwnership_def
      await_Inr await_Inl submits_and_awaits_await)

theorem state_changing_submits_and_awaits_witness:
  "depositCollateral mock ''0xT1'' ''1.5'' = Inr () \<and>
   depositCollateral mock ''0xT1'' ''abc'' = Inl (InvalidArgument ''invalid FixedNumber string value'') \<and>
   repayLoan (mock\<lparr>c_repayLoan := \<lambda>token a.
        if a = 1500000000000000000 then Inl (CallException ''insufficient allowance'')
        else Inr mock_tx\<rparr>) ''0xT1'' ''1.5'' = Inl (CallException ''insufficient allowance'') \<and>
   acceptOwnership (mock\<lparr>c_acceptOwnership := Inr \<lparr>wait = Inl (CallException ''reverted'')\<rparr>\<rparr>)
     = Inl (CallException ''reverted'') \<and>
   transferOwnership (mock\<lparr>c_transferOwnership := \<lambda>newOwner. Inl (NetworkError ''rejected'')\<rparr>) ''0xB2''
     = Inl (NetworkError ''rejected'')"
proof -
  have "submits_and_awaits (c_depositCollateral mock ''0xT1'' 1500000000000000000)
          (depositCollateral mock ''0xT1'' ''1.5'')"
    using state_changing_submits_and_awaits [of "''1.5''" mock "''0xT1''"] parseUnits_1_5 by blast
  then have a: "depositCollateral mock ''0xT1'' ''1.5'' = Inr ()"
    by (simp add: submits_and_awaits_def mock_def mock_tx_def)
  have a': "depositCollateral mock ''0xT1'' ''abc'' = Inl (InvalidArgument ''invalid FixedNumber string value'')"
    using state_changing_submits_and_awaits [of "''abc''" mock "''0xT1''"] parseUnits_abc by blast
  define cr where "cr = mock\<lparr>c_repayLoan := \<lambda>token a.
        if a = 1500000000000000000 then Inl (CallException ''insufficient allowance'')
        else Inr mock_tx\<rparr>"
  have "submits_and_awaits (c_repayLoan cr ''0xT1'' 1500000000000000000) (repayLoan cr ''0xT1'' ''1.5'')"
    using state_changing_submits_and_awaits [of "''1.5''" cr "''0xT1''"] parseUnits_1_5 by blast
  then have a'': "repayLoan cr ''0xT1'' ''1.5'' = Inl (CallException ''insufficient allowance'')"
    by (simp add: submits_and_awaits_def cr_def)
  have "submits_and_awaits
          (c_acceptOwnership (mock\<lparr>c_acceptOwnership := Inr \<lparr>wait = Inl (CallException ''reverted'')\<rparr>\<rparr>))
          (acceptOwnership (mock\<lparr>c_acceptOwnership := Inr \<lparr>wait = Inl (CallException ''reverted'')\<rparr>\<rparr>))"
    using state_changing_submits_and_awaits
      [of "''1.5''" "mock\<lparr>c_acceptOwnership := Inr \<lparr>wait = Inl (CallException ''reverted'')\<rparr>\<rparr>"]
    by blast
  then have b: "acceptOwnership (mock\<lparr>c_acceptOwnership := Inr \<lparr>wait = Inl (CallException ''reverted'')\<rparr>\<rparr>)
     = Inl (CallException ''reverted'')"
    by (simp add: submits_and_awaits_def)
  have "submits_and_awaits
          (c_transferOwnership (mock\<lparr>c_transferOwnership := \<lambda>newOwner. Inl (NetworkError ''rejected'')\<rparr>) ''0xB2'')
          (transferOwnership (mock\<lparr>c_transferOwnership := \<lambda>newOwner. Inl (NetworkError ''rejected'')\<rparr>) ''0xB2'')"
    using state_changing_submits_and_awaits
      [of "''1.5''" "mock\<lparr>c_transferOwnership := \<lambda>newOwner. Inl (NetworkError ''rejected'')\<rparr>"]
    by blast
  then have c: "transferOwnership (mock\<lparr>c_transferOwnership := \<lambda>newOwner. Inl (NetworkError ''rejected'')\<rparr>) ''0xB2''
     = Inl (NetworkError ''rejected'')"
    by (simp add: submits_and_awaits_def)
  show ?thesis using a a' a'' b c unfolding cr_def by simp
qed

subsection \<open>C9: the time stamp of an event\<close>

text \<open>
  C9 states that the \<^verbatim>\<open>timeStamp\<close> of every decoded event is the on-chain time stamp, in
  seconds, multiplied by 1000. The product is computed on JavaScript numbers,
  \<^verbatim>\<open>Number(timeStamp) * 1000\<close>, which are doubles: for the time stamp \<open>2^53 + 1\<close> the
  result is \<open>9007199254740992000\<close>, not \<open>9007199254740993000\<close>. As amended: for every
  decoded entry whose time stamp \<open>t\<close> satisfies \<open>|t| * 1000 < 2^53\<close>, which holds for every
  date of the next 285 thousand years, the field is exactly \<open>t * 1000\<close>, milliseconds
  and not the raw seconds.
\<close>

theorem timeStamp_in_milliseconds:
  assumes "parseLog rpc lg = Inr (Some args)" "decodeLog rpc evName lg = Some e"
    and "\<bar>args_timeStamp args\<bar> * 1000 < 2 ^ 53"
  shows "ev_timeStamp e = Num (args_timeStamp args * 1000)"
proof -
  have small: "\<bar>args_timeStamp args\<bar> < 2 ^ 53" using assms(3) by linarith
  have big: "\<bar>args_timeStamp args * 1000\<bar> < 2 ^ 53" using assms(3) by (simp add: abs_mult)
  have "ev_timeStamp e = times (Number_of_bigint (args_timeStamp args)) (Num 1000)"
    using assms(1,2) by (auto simp: decodeLog_def Let_def split: sum.splits)
  also have "\<dots> = Num (args_timeStamp args * 1000)"
    using small big by (simp add: Number_of_bigint_def round_double_exact)
  finally show ?thesis .
qed

theorem timeStamp_in_milliseconds_witness:
  "map_option ev_timeStamp (decodeLog mock_rpc ''CollateralDeposited'' 11) = Some (Num 1700000000000)"
proof -
  have p: "parseLog mock_rpc 11 = Inr (Some (mock_args 5000000000000000000 1700000000))"
    by (simp add: mock_rpc_def)
  have f: "fits_width (args_amount (mock_args 5000000000000000000 1700000000))"
    by (simp add: mock_args_def fits_width_def)
  have d: "decodeLog mock_rpc ''CollateralDeposited'' 11
      = Some (event_of ''CollateralDeposited'' (mock_args 5000000000000000000 1700000000))"
    using p f by (rule decodeLog_ok)
  have b: "\<bar>args_timeStamp (mock_args 5000000000000000000 1700000000)\<bar> * 1000 < 2 ^ 53"
    by (simp add: mock_args_def)
  show ?thesis
    using timeStamp_in_milliseconds [OF p d b] by (simp add: d mock_args_def)
qed

theorem timeStamp_in_milliseconds_counterexample:
  "parseLog mock_rpc 14 = Inr (Some (mock_args 1 9007199254740993)) \<and>
   map_option ev_timeStamp (decodeLog mock_rpc ''CollateralDeposited'' 14)
     = Some (Num 9007199254740992000) \<and>
   (9007199254740992000 :: int) \<noteq> 9007199254740993 * 1000"
proof -
  have p: "parseLog mock_rpc 14 = Inr (Some (mock_args 1 9007199254740993))"
    by (simp add: mock_rpc_def)
  have f: "fits_width (args_amount (mock_args 1 9007199254740993))"
    by (simp add: mock_args_def fits_width_def)
  have d: "decodeLog mock_rpc ''CollateralDeposited'' 14
      = Some (event_of ''CollateralDeposited'' (mock_args 1 9007199254740993))"
    using p f by (rule decodeLog_ok)
  have bl: "bit_length 9007199254740993 = 54" "bit_length 9007199254740992000 = 63"
    by (simp_all add: bit_length.simps)
  have r: "round_double 9007199254740993 = Num 9007199254740992"
    by (simp add: round_double_def bl Let_def)
  have r2: "round_double 9007199254740992000 = Num 9007199254740992000"
    by (simp add: round_double_def bl Let_def)
  show ?thesis
    by (simp add: d p event_of_def mock_args_def Number_of_bigint_def r r2)
qed

subsection \<open>C10: the published value is null until a read succeeds, then never again\<close>

text \<open>
  C10: the \<^verbatim>\<open>healthFactor\<close> the hook exposes is \<^verbatim>\<open>null\<close> at first; it is still
  \<^verbatim>\<open>null\<close> after any run of steps in which no read settled with a result; and once it
  is not \<^verbatim>\<open>null\<close>, no run of steps makes it \<^verbatim>\<open>null\<close> again.
\<close>

theorem healthFactor_null_until_published:
  "healthFactor useState_initial = None \<and>
   (\<forall>(xs :: 'h step list) st. hook_run useState_initial xs = Some st \<longrightarrow>
      (\<forall>factor. Settled (Inr factor) \<notin> set xs) \<longrightarrow> healthFactor st = None) \<and>
   (\<forall>st (xs :: 'h step list) st'. healthFactor st \<noteq> None \<longrightarrow> hook_run st xs = Some st' \<longrightarrow>
      healthFactor st' \<noteq> None)"
proof (intro conjI allI impI)
  show "healthFactor useState_initial = None" by (simp add: useState_initial_def)
next
  fix xs :: "'h step list" and st
  assume "hook_run useState_initial xs = Some st" "\<forall>factor. Settled (Inr factor) \<notin> set xs"
  then show "healthFactor st = None"
    using hook_run_stays_null [of useState_initial xs st] by (simp add: useState_initial_def)
next
  fix st and xs :: "'h step list" and st'
  assume "healthFactor st \<noteq> None" "hook_run st xs = Some st'"
  then show "healthFactor st' \<noteq> None" using hook_run_keeps by blast
qed

theorem healthFactor_null_until_published_witness:
  "map_option healthFactor (hook_run useState_initial
      [Effect (Some (7::nat)) (Some ''0xA1''), Settled (Inl (NetworkError ''timeout''))]) = Some None \<and>
   map_option healthFactor (hook_run
      \<lparr>healthFactor = Some ''1.5'', issued = [''0xA1''], in_flight = 0, console = []\<rparr>
      [Effect (None :: nat option) None, Effect (Some 7) (Some ''0xB2''),
       Settled (Inl (NetworkError ''timeout''))]) \<noteq> Some None"
proof -
  let ?xs = "[Effect (Some (7::nat)) (Some ''0xA1''), Settled (Inl (NetworkError ''timeout''))]"
  obtain st where r: "hook_run useState_initial ?xs = Some st"
    by (simp add: useState_initial_def falsy_def)
  have n: "\<forall>factor. Settled (Inr factor) \<notin> set ?xs" by simp
  have a: "healthFactor st = None"
    using healthFactor_null_until_published [where ?'h = nat, THEN conjunct2, THEN conjunct1] r n
    by blast
  let ?s0 = "\<lparr>healthFactor = Some ''1.5'', issued = [''0xA1''], in_flight = 0, console = []\<rparr>"
  let ?ys = "[Effect (None :: nat option) None, Effect (Some 7) (Some ''0xB2''),
       Settled (Inl (NetworkError ''timeout''))]"
  obtain st' where r': "hook_run ?s0 ?ys = Some st'"
    by (simp add: falsy_def)
  have p: "healthFactor ?s0 \<noteq> None" by simp
  have b: "healthFactor st' \<noteq> None"
    using healthFactor_null_until_published [where ?'h = nat, THEN conjunct2, THEN conjunct2] p r'
    by blast
  show ?thesis unfolding r r' using a b by simp
qed

subsection \<open>Further properties\<close>

text \<open>
  Each read that returns a monetary amount (\<^verbatim>\<open>collateralDeposited\<close>,
  \<^verbatim>\<open>getUserTotalBorrowed\<close>, \<^verbatim>\<open>getUserTotalCollateral\<close>, \<^verbatim>\<open>allowedBorrowingAmount\<close>,
  \<^verbatim>\<open>totalLiquidity\<close>, \<^verbatim>\<open>calculateBasicLPRewards\<close>, \<^verbatim>\<open>treasury\<close>,
  \<^verbatim>\<open>getTotalValueLocked\<close>) rejects with the fault of the contract call, and otherwise
  resolves with the contract's fixed-point integer formatted with 18 decimals.
\<close>

theorem read_methods_rescale:
  "rescales (c_collateralDeposited c user token) (collateralDeposited c user token) \<and>
   rescales (c_userTotalBorrowedAssetInUsd c user) (getUserTotalBorrowed c user) \<and>
   rescales (c_userTotalCollateralAssetInUsd c user) (getUserTotalCollateral c user) \<and>
   rescales (c_allowedBorrowingAmount c user) (allowedBorrowingAmount c user) \<and>
   rescales (c_totalLiquidity c token) (totalLiquidity c token) \<and>
   rescales (c_calculateBasicLPRewards c token) (calculateBasicLPRewards c token) \<and>
   rescales (c_treasury c token) (treasury c token) \<and>
   rescales (c_tvl c token) (getTotalValueLocked c token)"
  by (simp add: rescales_def collateralDeposited_def getUserTotalBorrowed_def
      getUserTotalCollateral_def allowedBorrowingAmount_def totalLiquidity_def
      calculateBasicLPRewards_def treasury_def getTotalValueLocked_def await_def formatUnits_def
      split: sum.splits)

theorem read_methods_rescale_witness:
  "treasury (mock\<lparr>c_treasury := \<lambda>t. Inr 2500000000000000000\<rparr>) ''0xT1'' = Inr ''2.5'' \<and>
   treasury (mock\<lparr>c_treasury := \<lambda>t. Inl (NetworkError ''timeout'')\<rparr>) ''0xT1''
     = Inl (NetworkError ''timeout'')"
proof -
  have a: "rescales (c_treasury (mock\<lparr>c_treasury := \<lambda>t. Inr 2500000000000000000\<rparr>) ''0xT1'')
      (treasury (mock\<lparr>c_treasury := \<lambda>t. Inr 2500000000000000000\<rparr>) ''0xT1'')"
    using read_methods_rescale [of "mock\<lparr>c_treasury := \<lambda>t. Inr 2500000000000000000\<rparr>" _ "''0xT1''"]
    by blast
  have b: "rescales (c_treasury (mock\<lparr>c_treasury := \<lambda>t. Inl (NetworkError ''timeout'')\<rparr>) ''0xT1'')
      (treasury (mock\<lparr>c_treasury := \<lambda>t. Inl (NetworkError ''timeout'')\<rparr>) ''0xT1'')"
    using read_methods_rescale [of "mock\<lparr>c_treasury := \<lambda>t. Inl (NetworkError ''timeout'')\<rparr>" _ "''0xT1''"]
    by blast
  show ?thesis
    using a b by (simp add: rescales_def fits_width_def toString_2_5)
qed

text \<open>
  Over any run of the hook, the reads issued are exactly the accounts of the effects
  that ran with a handle and an account, in order: one read for each such effect and
  none for any other step.
\<close>

theorem hook_issues_one_read_per_effect:
  "hook_run st xs = Some st' \<Longrightarrow>
   issued st' = issued st @ map effect_account (filter starts_read xs)"
proof (induction xs arbitrary: st)
  case Nil
  then show ?case by simp
next
  case (Cons x xs)
  then obtain st1 where s: "hook_step st x = Some st1" and r: "hook_run st1 xs = Some st'"
    by (auto split: option.splits)
  have "issued st1 = issued st @ map effect_account (filter starts_read [x])"
    using s by (rule hook_step_issued)
  moreover have "issued st' = issued st1 @ map effect_account (filter starts_read xs)"
    using r by (rule Cons.IH)
  ultimately show ?case by simp
qed

theorem hook_issues_one_read_per_effect_witness:
  "map_option issued (hook_run useState_initial
     [Effect None (Some ''0xA1''), Effect (Some (7::nat)) None, Effect (Some 7) (Some ''0xA1''),
      Settled (Inl (NetworkError ''timeout'')), Effect (Some 7) (Some ''0xB2'')])
   = Some [''0xA1'', ''0xB2'']"
proof -
  let ?xs = "[Effect None (Some ''0xA1''), Effect (Some (7::nat)) None, Effect (Some 7) (Some ''0xA1''),
      Settled (Inl (NetworkError ''timeout'')), Effect (Some 7) (Some ''0xB2'')]"
  obtain st where r: "hook_run useState_initial ?xs = Some st"
    by (simp add: useState_initial_def falsy_def)
  have "issued st = issued useState_initial @ map effect_account (filter starts_read ?xs)"
    using r by (rule hook_issues_one_read_per_effect)
  then have "issued st = [''0xA1'', ''0xB2'']"
    by (simp add: useState_initial_def starts_read_def falsy_def effect_account_def)
  then show ?thesis unfolding r by simp
qed

end
